theory Spec2Isabelle
  imports Complex_Main "HOL-Library.Sublist"
begin

section \<open>Data model\<close>

text \<open>
  The components pass commits around as untyped objects of the shape the hosting API
  returns: \<^verbatim>\<open>{sha, commit: {author: {name, email, date}, message}, html_url, stats?, files?}\<close>,
  to which the fetcher adds \<^verbatim>\<open>repository: {name}\<close>. The optional members are options here.

  A \<^verbatim>\<open>Date\<close> object is read in two ways by the code: \<^verbatim>\<open>getTime()\<close> (milliseconds since
  the epoch) and, through the date formatting library, its calendar fields in local
  time. Both readings are fields of the record; how the platform's time zone relates
  them is outside the program.
\<close>

record js_date =
  getTime :: int
  year :: nat
  month :: nat
  day :: nat
  hours :: nat
  minutes :: nat
  seconds :: nat

record author =
  name :: string
  email :: string
  date :: js_date

record commit_data =
  author :: author
  message :: string

record repo_tag =
  repo_name :: string

record commit_stats =
  additions :: "nat option"
  deletions :: "nat option"

record gh_commit =
  sha :: string
  commit :: commit_data
  html_url :: string
  repository :: "repo_tag option"
  stats :: "commit_stats option"
  files :: "string list option"

record date_range =
  range_from :: js_date
  range_to :: js_date


section \<open>Numbers as text\<close>

text \<open>
  A template literal renders a non-negative integer (a length, a count, an index) in
  decimal, without padding.
\<close>

definition digit_char :: "nat \<Rightarrow> char" where
  "digit_char d = ''0123456789'' ! (d mod 10)"

fun show_nat :: "nat \<Rightarrow> string" where
  "show_nat n = (if n < 10 then [digit_char n] else show_nat (n div 10) @ [digit_char (n mod 10)])"

declare show_nat.simps [simp del]

definition show_int :: "int \<Rightarrow> string" where
  "show_int i = (if i < 0 then CHR ''-'' # show_nat (nat (- i)) else show_nat (nat i))"


section \<open>Commit Filter (CommitFilter.applyFilters, getTokensPerCommit)\<close>

text \<open>
  \<^verbatim>\<open>commit.repository?.name || 'unknown'\<close>: the tag's name, or the default when the commit
  has no tag or the name is the empty string (which is falsy).
\<close>

definition repoName :: "gh_commit \<Rightarrow> string" where
  "repoName c =
     (case repository c of
        None \<Rightarrow> ''unknown''
      | Some r \<Rightarrow> if repo_name r = [] then ''unknown'' else repo_name r)"

text \<open>The callback given to \<^verbatim>\<open>commits.filter\<close>.\<close>

definition keeps :: "string list \<Rightarrow> gh_commit \<Rightarrow> bool" where
  "keeps repos c = (if length repos = 0 then True else repoName c \<in> set repos)"

definition tokenMap :: "(int \<times> nat) list" where
  "tokenMap = [(1, 25), (2, 50), (3, 100), (4, 150), (5, 200)]"

text \<open>\<^verbatim>\<open>tokenMap[level] || 100\<close>: a missing key and the value 0 both give 100.\<close>

definition getTokensPerCommit :: "int \<Rightarrow> nat" where
  "getTokensPerCommit level =
     (case map_of tokenMap level of
        None \<Rightarrow> 100
      | Some t \<Rightarrow> if t = 0 then 100 else t)"

text \<open>
  \<^verbatim>\<open>applyFilters(repos, detail)\<close> reads the component's \<^verbatim>\<open>commits\<close> and hands
  \<^verbatim>\<open>(filteredCommits, estimatedTokens)\<close> to \<^verbatim>\<open>onFilterChange\<close>; the pair is the result here.
\<close>

definition applyFilters :: "gh_commit list \<Rightarrow> string list \<Rightarrow> int \<Rightarrow> gh_commit list \<times> nat" where
  "applyFilters commits repos detail =
     (let filteredCommits = filter (keeps repos) commits;
          tokensPerCommit = getTokensPerCommit detail;
          estimatedTokens = length filteredCommits * tokensPerCommit
      in (filteredCommits, estimatedTokens))"


section \<open>Text helpers of the exporter\<close>

text \<open>
  Strings are sequences of characters; the line break of the templates is \<open>nl\<close>.
  \<^verbatim>\<open>Array.prototype.join\<close> puts the separator between the elements.
\<close>

definition nl :: string where
  "nl = [CHR 0x0A]"

fun join :: "string \<Rightarrow> string list \<Rightarrow> string" where
  "join sep [] = []"
| "join sep [x] = x"
| "join sep (x # y # ys) = x @ sep @ join sep (y # ys)"

text \<open>
  \<^verbatim>\<open>String.prototype.trim\<close> removes white space at both ends: tab, line feed, vertical tab,
  form feed, carriage return, space and the no-break space (the white space characters
  among the first 256 code points).
\<close>

definition is_space :: "char \<Rightarrow> bool" where
  "is_space c = (c \<in> set [CHR 0x09, CHR 0x0A, CHR 0x0B, CHR 0x0C, CHR 0x0D, CHR 0x20, CHR 0xA0])"

definition trim :: "string \<Rightarrow> string" where
  "trim s = rev (dropWhile is_space (rev (dropWhile is_space s)))"

text \<open>
  The date library's \<^verbatim>\<open>format\<close>, for the four patterns the exporter uses. Numbers are
  padded with zeros on the left up to the width of the pattern; \<^verbatim>\<open>MMM\<close> is the
  abbreviated month name.
\<close>

definition pad :: "nat \<Rightarrow> nat \<Rightarrow> string" where
  "pad w n = replicate (w - length (show_nat n)) CHR ''0'' @ show_nat n"

definition month_names :: "string list" where
  "month_names = [''Jan'', ''Feb'', ''Mar'', ''Apr'', ''May'', ''Jun'',
                  ''Jul'', ''Aug'', ''Sep'', ''Oct'', ''Nov'', ''Dec'']"

definition month_abbr :: "nat \<Rightarrow> string" where
  "month_abbr m = (if 1 \<le> m \<and> m \<le> 12 then month_names ! (m - 1) else [])"

definition valid_date :: "js_date \<Rightarrow> bool" where
  "valid_date d \<longleftrightarrow>
     1 \<le> month d \<and> month d \<le> 12 \<and> 1 \<le> day d \<and> day d \<le> 31
     \<and> hours d < 24 \<and> minutes d < 60 \<and> seconds d < 60"

definition format_yyyy_MM_dd :: "js_date \<Rightarrow> string" where
  "format_yyyy_MM_dd d = pad 4 (year d) @ ''-'' @ pad 2 (month d) @ ''-'' @ pad 2 (day d)"

definition format_yyyy_MM_dd_HH_mm :: "js_date \<Rightarrow> string" where
  "format_yyyy_MM_dd_HH_mm d =
     format_yyyy_MM_dd d @ '' '' @ pad 2 (hours d) @ '':'' @ pad 2 (minutes d)"

definition format_yyyy_MM_dd_HH_mm_ss :: "js_date \<Rightarrow> string" where
  "format_yyyy_MM_dd_HH_mm_ss d = format_yyyy_MM_dd_HH_mm d @ '':'' @ pad 2 (seconds d)"

definition format_MMM_dd_yyyy :: "js_date \<Rightarrow> string" where
  "format_MMM_dd_yyyy d = month_abbr (month d) @ '' '' @ pad 2 (day d) @ '', '' @ pad 4 (year d)"


section \<open>Detail-Level Formatter (EnhancedCommitExporter.formatCommitByDetailLevel)\<close>

text \<open>The locals of the function: the date, the first line of the message and the rest.\<close>

definition commit_date :: "gh_commit \<Rightarrow> js_date" where
  "commit_date c = date (author (commit c))"

definition message_title :: "gh_commit \<Rightarrow> string" where
  "message_title c = takeWhile (\<lambda>ch. ch \<noteq> CHR 0x0A) (message (commit c))"

definition message_body :: "gh_commit \<Rightarrow> string" where
  "message_body c = trim (drop (Suc (length (message_title c))) (message (commit c)))"

definition short_sha :: "gh_commit \<Rightarrow> string" where
  "short_sha c = take 8 (sha c)"

definition author_name :: "gh_commit \<Rightarrow> string" where
  "author_name c = name (author (commit c))"

definition author_email :: "gh_commit \<Rightarrow> string" where
  "author_email c = email (author (commit c))"

text \<open>\<^verbatim>\<open>commit.repository?.name || 'Unknown'\<close>\<close>

definition repository_text :: "gh_commit \<Rightarrow> string" where
  "repository_text c =
     (case repository c of
        None \<Rightarrow> ''Unknown''
      | Some r \<Rightarrow> if repo_name r = [] then ''Unknown'' else repo_name r)"

text \<open>\<^verbatim>\<open>commit.stats ? `+${commit.stats.additions || 0} -${commit.stats.deletions || 0}` : 'N/A'\<close>\<close>

definition or_zero :: "nat option \<Rightarrow> nat" where
  "or_zero v = (case v of None \<Rightarrow> 0 | Some n \<Rightarrow> n)"

definition stats_text :: "gh_commit \<Rightarrow> string" where
  "stats_text c =
     (case stats c of
        None \<Rightarrow> ''N/A''
      | Some st \<Rightarrow> ''+'' @ show_nat (or_zero (additions st)) @ '' -'' @ show_nat (or_zero (deletions st)))"

text \<open>\<^verbatim>\<open>commit.files ? commit.files.length : 'N/A'\<close>\<close>

definition files_text :: "gh_commit \<Rightarrow> string" where
  "files_text c = (case files c of None \<Rightarrow> ''N/A'' | Some fs \<Rightarrow> show_nat (length fs))"

text \<open>The five templates, named by the comments of their \<^verbatim>\<open>case\<close> labels.\<close>

definition minimal :: "gh_commit \<Rightarrow> nat \<Rightarrow> string" where
  "minimal c index =
     show_nat index @ ''. '' @ short_sha c @ '' - '' @ message_title c @ nl"

definition basic :: "gh_commit \<Rightarrow> nat \<Rightarrow> string" where
  "basic c index =
     show_nat index @ ''. **'' @ message_title c @ ''**'' @ nl
     @ ''   SHA: '' @ short_sha c @ '' | Author: '' @ author_name c
     @ '' | '' @ format_MMM_dd_yyyy (commit_date c) @ nl"

definition standard :: "gh_commit \<Rightarrow> nat \<Rightarrow> string" where
  "standard c index =
     ''### '' @ show_nat index @ ''. '' @ message_title c @ nl
     @ ''**SHA:** '' @ short_sha c @ nl
     @ ''**Date:** '' @ format_yyyy_MM_dd_HH_mm (commit_date c) @ nl
     @ ''**Author:** '' @ author_name c @ nl
     @ (if message_body c \<noteq> [] then ''**Details:** '' @ message_body c @ nl else [])
     @ nl
     @ ''---'' @ nl"

definition detailed :: "gh_commit \<Rightarrow> nat \<Rightarrow> string" where
  "detailed c index =
     ''### '' @ show_nat index @ ''. '' @ message_title c @ nl
     @ ''**SHA:** '' @ short_sha c @ nl
     @ ''**Date:** '' @ format_yyyy_MM_dd_HH_mm_ss (commit_date c) @ nl
     @ ''**Author:** '' @ author_name c @ '' <'' @ author_email c @ ''>'' @ nl
     @ ''**Repository:** '' @ repository_text c @ nl
     @ (if message_body c \<noteq> [] then ''**Description:** '' @ message_body c @ nl else [])
     @ nl
     @ ''**URL:** '' @ html_url c @ nl
     @ nl
     @ ''---'' @ nl"

definition maximum :: "gh_commit \<Rightarrow> nat \<Rightarrow> string" where
  "maximum c index =
     ''### '' @ show_nat index @ ''. '' @ message_title c @ nl
     @ ''**SHA:** '' @ sha c @ nl
     @ ''**Date:** '' @ format_yyyy_MM_dd_HH_mm_ss (commit_date c) @ nl
     @ ''**Author:** '' @ author_name c @ '' <'' @ author_email c @ ''>'' @ nl
     @ ''**Repository:** '' @ repository_text c @ nl
     @ (if message_body c \<noteq> [] then ''**Description:**'' @ nl @ message_body c @ nl else [])
     @ nl
     @ ''**Stats:** '' @ stats_text c @ nl
     @ ''**Files changed:** '' @ files_text c @ nl
     @ ''**URL:** '' @ html_url c @ nl
     @ nl
     @ ''---'' @ nl"

text \<open>The \<^verbatim>\<open>switch\<close>; its default branch calls the function again with level 3.\<close>

definition formatCommitByDetailLevel :: "gh_commit \<Rightarrow> nat \<Rightarrow> int \<Rightarrow> string" where
  "formatCommitByDetailLevel c index level =
     (if level = 1 then minimal c index
      else if level = 2 then basic c index
      else if level = 3 then standard c index
      else if level = 4 then detailed c index
      else if level = 5 then maximum c index
      else standard c index)"


section \<open>Aggregate Report Builder (EnhancedCommitExporter.generateOptimizedFormat)\<close>

definition detail_names :: "(int \<times> string) list" where
  "detail_names =
     [(1, ''Minimal''), (2, ''Basic''), (3, ''Standard''), (4, ''Detailed''), (5, ''Maximum'')]"

text \<open>\<^verbatim>\<open>names[level] || "Standard"\<close>\<close>

definition getDetailLevelName :: "int \<Rightarrow> string" where
  "getDetailLevelName level =
     (case map_of detail_names level of
        None \<Rightarrow> ''Standard''
      | Some n \<Rightarrow> if n = [] then ''Standard'' else n)"

subsection \<open>Counting by key\<close>

text \<open>
  \<^verbatim>\<open>reduce((acc, commit) => { acc[key] = (acc[key] || 0) + 1; return acc }, {})\<close> counts in
  an object. An object keeps its string keys in the order of their creation, so it is a
  list of pairs here: a key already present has its count raised in place, a new key is
  added at the end.

  The object starts as \<^verbatim>\<open>{}\<close>, which inherits the members of \<^verbatim>\<open>Object.prototype\<close>; for a
  key that is one of their names, \<^verbatim>\<open>acc[key]\<close> is that member and not a count. Those
  keys are outside this model: the properties below assume that none occurs.
\<close>

definition inherited_names :: "string list" where
  "inherited_names =
     [''constructor'', ''toString'', ''toLocaleString'', ''valueOf'', ''hasOwnProperty'',
      ''isPrototypeOf'', ''propertyIsEnumerable'', ''__proto__'', ''__defineGetter__'',
      ''__defineSetter__'', ''__lookupGetter__'', ''__lookupSetter__'']"

fun bump :: "string \<Rightarrow> (string \<times> nat) list \<Rightarrow> (string \<times> nat) list" where
  "bump k [] = [(k, 1)]"
| "bump k ((k', n) # kvs) = (if k = k' then (k', n + 1) # kvs else (k', n) # bump k kvs)"

definition tally :: "string list \<Rightarrow> (string \<times> nat) list" where
  "tally keys = foldl (\<lambda>acc k. bump k acc) [] keys"

text \<open>
  \<^verbatim>\<open>Object.entries\<close> lists the keys that are array indices first, in ascending numeric
  order, and then the other keys in the order of their creation. An array index is the
  decimal text, without leading zeros, of a number below \<open>2\<^sup>3\<^sup>2 - 1\<close>.
\<close>

fun read_digits :: "nat \<Rightarrow> string \<Rightarrow> nat option" where
  "read_digits acc [] = Some acc"
| "read_digits acc (ch # s) =
     (if ch \<in> set ''0123456789''
      then read_digits (10 * acc + (of_char ch - 48)) s
      else None)"

definition read_nat :: "string \<Rightarrow> nat option" where
  "read_nat s = (if s = [] then None else read_digits 0 s)"

definition array_index :: "string \<Rightarrow> nat option" where
  "array_index k =
     (case read_nat k of
        None \<Rightarrow> None
      | Some n \<Rightarrow> if show_nat n = k \<and> n < 4294967295 then Some n else None)"

definition is_array_index :: "string \<Rightarrow> bool" where
  "is_array_index k = (array_index k \<noteq> None)"

definition index_value :: "string \<Rightarrow> nat" where
  "index_value k = (case array_index k of None \<Rightarrow> 0 | Some n \<Rightarrow> n)"

definition object_entries :: "(string \<times> nat) list \<Rightarrow> (string \<times> nat) list" where
  "object_entries kvs =
     sort_key (\<lambda>e. index_value (fst e)) (filter (\<lambda>e. is_array_index (fst e)) kvs)
     @ filter (\<lambda>e. \<not> is_array_index (fst e)) kvs"

definition count_line :: "string \<times> nat \<Rightarrow> string" where
  "count_line e = ''- **'' @ fst e @ '':** '' @ show_nat (snd e) @ '' commits''"

definition getRepositoryBreakdown :: "gh_commit list \<Rightarrow> string" where
  "getRepositoryBreakdown filteredCommits =
     (let repoCount = tally (map repository_text filteredCommits)
      in join nl (map count_line (object_entries repoCount)))"

text \<open>
  \<^verbatim>\<open>.sort(([,a], [,b]) => b - a)\<close> sorts by descending count; the sort of an array is
  stable, as is \<open>sort_key\<close>. \<^verbatim>\<open>.slice(0, 5)\<close> keeps the first five entries.
\<close>

definition authorCount :: "gh_commit list \<Rightarrow> (string \<times> nat) list" where
  "authorCount filteredCommits = tally (map author_name filteredCommits)"

definition rankedAuthors :: "gh_commit list \<Rightarrow> (string \<times> nat) list" where
  "rankedAuthors filteredCommits =
     sort_key (\<lambda>e. - int (snd e)) (object_entries (authorCount filteredCommits))"

definition topAuthors :: "gh_commit list \<Rightarrow> (string \<times> nat) list" where
  "topAuthors filteredCommits = take 5 (rankedAuthors filteredCommits)"

definition getAuthorAnalysis :: "gh_commit list \<Rightarrow> string" where
  "getAuthorAnalysis filteredCommits = join nl (map count_line (topAuthors filteredCommits))"

subsection \<open>Time span and average\<close>

definition ms_per_day :: int where
  "ms_per_day = 1000 * 60 * 60 * 24"

text \<open>
  \<^verbatim>\<open>Math.ceil((dateRange.to.getTime() - dateRange.from.getTime()) / (1000 * 60 * 60 * 24))\<close>.
  The times are whole milliseconds; the quotient is taken exactly.
\<close>

definition time_span :: "date_range \<Rightarrow> int" where
  "time_span dr =
     \<lceil>real_of_int (getTime (range_to dr) - getTime (range_from dr)) / real_of_int ms_per_day\<rceil>"

text \<open>
  The value of \<^verbatim>\<open>filteredCommits.length / Math.ceil(\<dots>)\<close>. A division by zero does not
  fail: it gives an infinity, or \<^verbatim>\<open>NaN\<close> for \<^verbatim>\<open>0 / 0\<close>. (The ceiling of a negative fraction
  is the negative zero, so a span of zero from a range that runs backwards divides to
  the negative infinity.) A finite quotient is kept as its numerator and denominator.
  The older exporter (\<^verbatim>\<open>CommitExporter.generateLLMFormat\<close>) computes its average by the
  same expression, with \<^verbatim>\<open>commits.length\<close> as the numerator.
\<close>

datatype js_number = NaN | PosInfinity | NegInfinity | Quotient nat int

definition commits_per_day :: "nat \<Rightarrow> date_range \<Rightarrow> js_number" where
  "commits_per_day n dr =
     (let span = time_span dr
      in if span \<noteq> 0 then Quotient n span
         else if n = 0 then NaN
         else if getTime (range_to dr) < getTime (range_from dr) then NegInfinity
         else PosInfinity)"

subsection \<open>The document\<close>

text \<open>
  What the exporter takes from the platform: the current time, the text of a number in
  the user's locale (\<^verbatim>\<open>toLocaleString\<close>), and the text of a finite quotient with two
  decimals (\<^verbatim>\<open>toFixed(2)\<close> of a floating point number). A number that is not finite is
  printed by \<^verbatim>\<open>toFixed\<close> as its name.
\<close>

record platform =
  now :: js_date
  toLocaleString :: "nat \<Rightarrow> string"
  toFixed_finite :: "nat \<Rightarrow> int \<Rightarrow> string"

definition toFixed :: "platform \<Rightarrow> js_number \<Rightarrow> string" where
  "toFixed P x =
     (case x of
        NaN \<Rightarrow> ''NaN''
      | PosInfinity \<Rightarrow> ''Infinity''
      | NegInfinity \<Rightarrow> ''-Infinity''
      | Quotient a b \<Rightarrow> toFixed_finite P a b)"

definition header ::
  "platform \<Rightarrow> gh_commit list \<Rightarrow> gh_commit list \<Rightarrow> string \<Rightarrow> string list \<Rightarrow> date_range
     \<Rightarrow> int \<Rightarrow> nat \<Rightarrow> string" where
  "header P commits filteredCommits username selectedRepos dateRange detailLevel tokenCount =
     ''# GitHub Commit Analysis - Optimized for LLM'' @ nl
     @ nl
     @ ''**User:** '' @ username @ nl
     @ ''**Repositories:** ''
        @ (if length selectedRepos > 0 then join '', '' selectedRepos else ''All repositories'') @ nl
     @ ''**Date Range:** '' @ format_yyyy_MM_dd (range_from dateRange)
        @ '' to '' @ format_yyyy_MM_dd (range_to dateRange) @ nl
     @ ''**Total Commits:** '' @ show_nat (length filteredCommits)
        @ '' (filtered from '' @ show_nat (length commits) @ '')'' @ nl
     @ ''**Detail Level:** '' @ getDetailLevelName detailLevel @ nl
     @ ''**Estimated Tokens:** '' @ toLocaleString P tokenCount @ nl
     @ ''**Generated:** '' @ format_yyyy_MM_dd_HH_mm_ss (now P) @ nl
     @ nl
     @ ''---'' @ nl
     @ nl
     @ ''## Commit Data'' @ nl
     @ nl"

definition commitDetails :: "gh_commit list \<Rightarrow> int \<Rightarrow> string" where
  "commitDetails filteredCommits detailLevel =
     join nl (map (\<lambda>(index, commit). formatCommitByDetailLevel commit (index + 1) detailLevel)
                  (enumerate 0 filteredCommits))"

definition summary ::
  "platform \<Rightarrow> gh_commit list \<Rightarrow> string list \<Rightarrow> date_range \<Rightarrow> int \<Rightarrow> string" where
  "summary P filteredCommits selectedRepos dateRange detailLevel =
     nl
     @ ''## Summary'' @ nl
     @ nl
     @ ''- **Commits analyzed:** '' @ show_nat (length filteredCommits) @ nl
     @ ''- **Repositories:** ''
        @ (if length selectedRepos > 0 then show_nat (length selectedRepos) else ''All'') @ nl
     @ ''- **Time span:** '' @ show_int (time_span dateRange) @ '' days'' @ nl
     @ ''- **Average commits/day:** ''
        @ toFixed P (commits_per_day (length filteredCommits) dateRange) @ nl
     @ nl
     @ ''### Repository Breakdown'' @ nl
     @ getRepositoryBreakdown filteredCommits @ nl
     @ nl
     @ ''### Author Analysis'' @ nl
     @ getAuthorAnalysis filteredCommits @ nl
     @ nl
     @ ''---'' @ nl
     @ nl
     @ ''*This data is optimized for LLM analysis with '' @ show_int detailLevel
     @ ''/5 detail level. Ask questions about patterns, productivity, code changes, or development insights.*''"

text \<open>The text stored as \<^verbatim>\<open>exportedText\<close>.\<close>

definition generateOptimizedFormat ::
  "platform \<Rightarrow> gh_commit list \<Rightarrow> gh_commit list \<Rightarrow> string \<Rightarrow> string list \<Rightarrow> date_range
     \<Rightarrow> int \<Rightarrow> nat \<Rightarrow> string" where
  "generateOptimizedFormat P commits filteredCommits username selectedRepos dateRange
       detailLevel tokenCount =
     header P commits filteredCommits username selectedRepos dateRange detailLevel tokenCount
     @ commitDetails filteredCommits detailLevel
     @ summary P filteredCommits selectedRepos dateRange detailLevel"


section \<open>Pagination Fetcher (Index.fetchCommits)\<close>

text \<open>
  The state of the page component that \<^verbatim>\<open>fetchCommits\<close> reads and writes. The toasts shown
  and the requests issued are its effects on the outside; they are recorded in order in
  two further fields.
\<close>

record toast =
  title :: string
  description :: string
  destructive :: bool

record commits_request =
  req_owner :: string
  req_repo :: string
  req_since :: int
  req_until :: int
  req_per_page :: nat
  req_page :: nat

record index_state =
  username :: string
  selectedRepo :: string
  dateRange :: "date_range option"
  commits :: "gh_commit list"
  filteredCommits :: "gh_commit list"
  loading :: bool
  toasts :: "toast list"
  requests :: "commits_request list"

text \<open>
  What one \<^verbatim>\<open>fetch\<close> of a page gives: the promise is rejected (or the body is not JSON), or
  there is a response with its \<^verbatim>\<open>ok\<close> flag and the commits of its body.
\<close>

datatype reply = Rejected | Reply bool "gh_commit list"

text \<open>How the body of the \<^verbatim>\<open>try\<close> block ends: by a throw, or with \<^verbatim>\<open>allCommits\<close>.\<close>

datatype outcome = Thrown | Finished "gh_commit list"

definition perPage :: nat where
  "perPage = 100"

definition page_request :: "index_state \<Rightarrow> date_range \<Rightarrow> nat \<Rightarrow> commits_request" where
  "page_request s dr page =
     \<lparr>req_owner = username s, req_repo = selectedRepo s,
      req_since = getTime (range_from dr), req_until = getTime (range_to dr),
      req_per_page = perPage, req_page = page\<rparr>"

text \<open>\<^verbatim>\<open>{...commit, repository: {name: selectedRepo}}\<close>\<close>

definition withRepo :: "string \<Rightarrow> gh_commit \<Rightarrow> gh_commit" where
  "withRepo repo c = c\<lparr>repository := Some \<lparr>repo_name = repo\<rparr>\<rparr>"

text \<open>
  The \<^verbatim>\<open>while (true)\<close> loop. It has no bound on the number of pages, so it is a partial
  function: \<open>None\<close> is the run that never leaves the loop. The last argument collects the
  requests issued so far.
\<close>

partial_function (option) fetch_loop ::
  "(commits_request \<Rightarrow> reply) \<Rightarrow> index_state \<Rightarrow> date_range \<Rightarrow> gh_commit list \<Rightarrow> nat
     \<Rightarrow> commits_request list \<Rightarrow> (outcome \<times> commits_request list) option"
where
  "fetch_loop remote s dr allCommits page issued =
     (case remote (page_request s dr page) of
        Rejected \<Rightarrow> Some (Thrown, issued @ [page_request s dr page])
      | Reply ok pageCommits \<Rightarrow>
          if \<not> ok then Some (Thrown, issued @ [page_request s dr page])
          else if length pageCommits = 0
          then Some (Finished allCommits, issued @ [page_request s dr page])
          else
            let commitsWithRepo = map (withRepo (selectedRepo s)) pageCommits;
                allCommits' = allCommits @ commitsWithRepo
            in if length pageCommits < perPage
               then Some (Finished allCommits', issued @ [page_request s dr page])
               else fetch_loop remote s dr allCommits' (page + 1)
                      (issued @ [page_request s dr page]))"

definition missing_toast :: toast where
  "missing_toast =
     \<lparr>title = ''Missing information'',
      description = ''Please select a repository and date range'',
      destructive = True\<rparr>"

definition loaded_toast :: "nat \<Rightarrow> toast" where
  "loaded_toast n =
     \<lparr>title = ''Commits loaded'',
      description = ''Found '' @ show_nat n @ '' commits in the selected date range'',
      destructive = False\<rparr>"

definition error_toast :: toast where
  "error_toast =
     \<lparr>title = ''Error'',
      description = ''Failed to fetch commits. Please try again.'',
      destructive = True\<rparr>"

definition fetchCommits :: "(commits_request \<Rightarrow> reply) \<Rightarrow> index_state \<Rightarrow> index_state option" where
  "fetchCommits remote s =
     (case dateRange s of
        None \<Rightarrow> Some (s\<lparr>toasts := toasts s @ [missing_toast]\<rparr>)
      | Some dr \<Rightarrow>
          if selectedRepo s = [] then Some (s\<lparr>toasts := toasts s @ [missing_toast]\<rparr>)
          else
            let s1 = s\<lparr>loading := True, commits := []\<rparr>
            in case fetch_loop remote s dr [] 1 [] of
                 None \<Rightarrow> None
               | Some (Finished allCommits, issued) \<Rightarrow>
                   Some (s1\<lparr>requests := requests s1 @ issued,
                            commits := allCommits,
                            filteredCommits := allCommits,
                            toasts := toasts s1 @ [loaded_toast (length allCommits)],
                            loading := False\<rparr>)
               | Some (Thrown, issued) \<Rightarrow>
                   Some (s1\<lparr>requests := requests s1 @ issued,
                            toasts := toasts s1 @ [error_toast],
                            loading := False\<rparr>))"

text \<open>
  Replies by size class, as the loop tells them apart: a full page makes it go on, a
  short page (possibly empty) is the last one, a failure throws.
\<close>

definition full_page :: "reply \<Rightarrow> bool" where
  "full_page r = (case r of Rejected \<Rightarrow> False | Reply ok p \<Rightarrow> ok \<and> perPage \<le> length p)"

definition short_page :: "reply \<Rightarrow> bool" where
  "short_page r = (case r of Rejected \<Rightarrow> False | Reply ok p \<Rightarrow> ok \<and> length p < perPage)"

definition failed :: "reply \<Rightarrow> bool" where
  "failed r = (case r of Rejected \<Rightarrow> True | Reply ok p \<Rightarrow> \<not> ok)"

definition page_items :: "reply \<Rightarrow> gh_commit list" where
  "page_items r = (case r of Rejected \<Rightarrow> [] | Reply ok p \<Rightarrow> p)"

text \<open>The commits of the pages \<open>lo, \<dots>, hi - 1\<close>, tagged, in page order.\<close>

definition pages :: "(commits_request \<Rightarrow> reply) \<Rightarrow> index_state \<Rightarrow> date_range \<Rightarrow> nat \<Rightarrow> nat \<Rightarrow> gh_commit list" where
  "pages remote s dr lo hi =
     concat (map (\<lambda>k. map (withRepo (selectedRepo s)) (page_items (remote (page_request s dr k)))) [lo..<hi])"

definition page_requests :: "index_state \<Rightarrow> date_range \<Rightarrow> nat \<Rightarrow> nat \<Rightarrow> commits_request list" where
  "page_requests s dr lo hi = map (page_request s dr) [lo..<hi]"


section \<open>Reading a document back\<close>

text \<open>
  The count a generated document states is read from it as a reader would: the first line
  that starts with the label of the total, and the digits after the label.
\<close>

definition is_digit :: "char \<Rightarrow> bool" where
  "is_digit ch = (ch \<in> set ''0123456789'')"

fun lines :: "string \<Rightarrow> string list" where
  "lines [] = [[]]"
| "lines (ch # s) =
     (if ch = CHR 0x0A then [] # lines s
      else (case lines s of [] \<Rightarrow> [[ch]] | l # ls \<Rightarrow> (ch # l) # ls))"

definition total_marker :: string where
  "total_marker = ''**Total Commits:** ''"

definition stated_total :: "string \<Rightarrow> nat option" where
  "stated_total doc =
     (case filter (prefix total_marker) (lines doc) of
        [] \<Rightarrow> None
      | l # ls \<Rightarrow> read_nat (takeWhile is_digit (drop (length total_marker) l)))"

definition single_line :: "string \<Rightarrow> bool" where
  "single_line s = (CHR 0x0A \<notin> set s)"


section \<open>Order of encounter and order of entries\<close>

text \<open>
  The keys of a list in the order of their first occurrence, the order in which
  \<^verbatim>\<open>Object.entries\<close> lists such keys, and the ranking by descending count of that order.
\<close>

fun first_seen :: "string list \<Rightarrow> string list" where
  "first_seen [] = []"
| "first_seen (k # ks) = k # removeAll k (first_seen ks)"

definition entries_order :: "string list \<Rightarrow> string list" where
  "entries_order ks =
     sort_key index_value (filter is_array_index ks) @ filter (\<lambda>k. \<not> is_array_index k) ks"

definition ranking :: "string list \<Rightarrow> string list" where
  "ranking ks = sort_key (\<lambda>a. - int (count_list ks a)) (entries_order (first_seen ks))"


section \<open>The templates as lists of pieces\<close>

text \<open>
  A template literal is a sequence of literal texts and of substitutions. The data of a
  commit that the five templates substitute are its fields; a substitution of the form
  \<^verbatim>\<open>${body ? `label ${body}\n` : ''}\<close> is an optional piece. The fields of a level are the
  fields its template substitutes.
\<close>

datatype field =
  Index | ShortSha | FullSha | Title | AuthorName | Email | DayText | Minutes | Seconds
  | Body | Repo | Url | Stats | Files

fun field_text :: "gh_commit \<Rightarrow> nat \<Rightarrow> field \<Rightarrow> string" where
  "field_text c index Index = show_nat index"
| "field_text c index ShortSha = short_sha c"
| "field_text c index FullSha = sha c"
| "field_text c index Title = message_title c"
| "field_text c index AuthorName = author_name c"
| "field_text c index Email = author_email c"
| "field_text c index DayText = format_MMM_dd_yyyy (commit_date c)"
| "field_text c index Minutes = format_yyyy_MM_dd_HH_mm (commit_date c)"
| "field_text c index Seconds = format_yyyy_MM_dd_HH_mm_ss (commit_date c)"
| "field_text c index Body = message_body c"
| "field_text c index Repo = repository_text c"
| "field_text c index Url = html_url c"
| "field_text c index Stats = stats_text c"
| "field_text c index Files = files_text c"

datatype piece = Lit string | Fld field | Opt string field string

fun render_piece :: "gh_commit \<Rightarrow> nat \<Rightarrow> piece \<Rightarrow> string" where
  "render_piece c index (Lit s) = s"
| "render_piece c index (Fld f) = field_text c index f"
| "render_piece c index (Opt before f after) =
     (if field_text c index f \<noteq> [] then before @ field_text c index f @ after else [])"

definition render :: "gh_commit \<Rightarrow> nat \<Rightarrow> piece list \<Rightarrow> string" where
  "render c index ps = concat (map (render_piece c index) ps)"

definition template1 :: "piece list" where
  "template1 = [Fld Index, Lit ''. '', Fld ShortSha, Lit '' - '', Fld Title, Lit nl]"

definition template2 :: "piece list" where
  "template2 =
     [Fld Index, Lit ''. **'', Fld Title, Lit ''**'', Lit nl,
      Lit ''   SHA: '', Fld ShortSha, Lit '' | Author: '', Fld AuthorName,
      Lit '' | '', Fld DayText, Lit nl]"

definition template3 :: "piece list" where
  "template3 =
     [Lit ''### '', Fld Index, Lit ''. '', Fld Title, Lit nl,
      Lit ''**SHA:** '', Fld ShortSha, Lit nl,
      Lit ''**Date:** '', Fld Minutes, Lit nl,
      Lit ''**Author:** '', Fld AuthorName, Lit nl,
      Opt ''**Details:** '' Body nl,
      Lit nl, Lit ''---'', Lit nl]"

definition template4 :: "piece list" where
  "template4 =
     [Lit ''### '', Fld Index, Lit ''. '', Fld Title, Lit nl,
      Lit ''**SHA:** '', Fld ShortSha, Lit nl,
      Lit ''**Date:** '', Fld Seconds, Lit nl,
      Lit ''**Author:** '', Fld AuthorName, Lit '' <'', Fld Email, Lit ''>'', Lit nl,
      Lit ''**Repository:** '', Fld Repo, Lit nl,
      Opt ''**Description:** '' Body nl,
      Lit nl, Lit ''**URL:** '', Fld Url, Lit nl,
      Lit nl, Lit ''---'', Lit nl]"

definition template5 :: "piece list" where
  "template5 =
     [Lit ''### '', Fld Index, Lit ''. '', Fld Title, Lit nl,
      Lit ''**SHA:** '', Fld FullSha, Lit nl,
      Lit ''**Date:** '', Fld Seconds, Lit nl,
      Lit ''**Author:** '', Fld AuthorName, Lit '' <'', Fld Email, Lit ''>'', Lit nl,
      Lit ''**Repository:** '', Fld Repo, Lit nl,
      Opt (''**Description:**'' @ nl) Body nl,
      Lit nl, Lit ''**Stats:** '', Fld Stats, Lit nl,
      Lit ''**Files changed:** '', Fld Files, Lit nl,
      Lit ''**URL:** '', Fld Url, Lit nl,
      Lit nl, Lit ''---'', Lit nl]"

definition template :: "int \<Rightarrow> piece list" where
  "template level =
     (if level = 1 then template1
      else if level = 2 then template2
      else if level = 3 then template3
      else if level = 4 then template4
      else if level = 5 then template5
      else template3)"

fun piece_fields :: "piece \<Rightarrow> field list" where
  "piece_fields (Lit s) = []"
| "piece_fields (Fld f) = [f]"
| "piece_fields (Opt before f after) = [f]"

definition level_fields :: "int \<Rightarrow> field list" where
  "level_fields level = concat (map piece_fields (template level))"

text \<open>
  The day, in the form of level 2, read from a time stamp of the form of the levels 3 to
  5: the year is the text before the first hyphen, the month and the day are the two
  pairs of digits after it.
\<close>

definition day_of_stamp :: "string \<Rightarrow> string" where
  "day_of_stamp ts =
     (let y = takeWhile (\<lambda>ch. ch \<noteq> CHR ''-'') ts;
          r = drop (Suc (length y)) ts;
          mm = take 2 r;
          dd = take 2 (drop 3 r)
      in month_abbr (case read_nat mm of None \<Rightarrow> 0 | Some m \<Rightarrow> m) @ '' '' @ dd @ '', '' @ y)"


section \<open>Sample data\<close>

text \<open>Concrete commits and dates, used where a property is run on an input.\<close>

definition utc_midnight :: "nat \<Rightarrow> nat \<Rightarrow> nat \<Rightarrow> int \<Rightarrow> js_date" where
  "utc_midnight y m d ms =
     \<lparr>getTime = ms, year = y, month = m, day = d, hours = 0, minutes = 0, seconds = 0\<rparr>"

definition sample_date :: js_date where
  "sample_date =
     \<lparr>getTime = 1709650245000, year = 2024, month = 3, day = 5,
      hours = 14, minutes = 50, seconds = 45\<rparr>"

definition sample_commit :: "string \<Rightarrow> string \<Rightarrow> string \<Rightarrow> string option \<Rightarrow> gh_commit" where
  "sample_commit h who msg tag =
     \<lparr>sha = h,
      commit = \<lparr>author = \<lparr>name = who, email = who @ ''@example.org'', date = sample_date\<rparr>,
                message = msg\<rparr>,
      html_url = ''https://example.org/c/'' @ h,
      repository = map_option (\<lambda>n. \<lparr>repo_name = n\<rparr>) tag,
      stats = None,
      files = None\<rparr>"


definition sample_range :: date_range where
  "sample_range =
     \<lparr>range_from = utc_midnight 2024 1 1 1704067200000,
      range_to = utc_midnight 2024 1 3 1704240000000\<rparr>"

definition sample_state :: index_state where
  "sample_state =
     \<lparr>username = ''octo'', selectedRepo = ''api'', dateRange = Some sample_range,
      commits = [], filteredCommits = [sample_commit ''0f'' ''old'' ''stale'' (Some ''web'')],
      loading = False, toasts = [], requests = []\<rparr>"

text \<open>A remote that answers page \<open>k\<close> with the \<open>k\<close>-th reply of a list, and fails after them.\<close>

definition scripted :: "reply list \<Rightarrow> commits_request \<Rightarrow> reply" where
  "scripted rs req =
     (if 1 \<le> req_page req \<and> req_page req \<le> length rs then rs ! (req_page req - 1) else Rejected)"

definition page_of_size :: "nat \<Rightarrow> reply" where
  "page_of_size n = Reply True (replicate n (sample_commit ''a1'' ''ann'' ''fix'' None))"


text \<open>
  A stand-in for the platform: plain digits for a number in the locale, and a quotient
  cut after two decimals.
\<close>

definition sample_platform :: platform where
  "sample_platform =
     \<lparr>now = sample_date,
      toLocaleString = show_nat,
      toFixed_finite = (\<lambda>a b. show_int (int a div b) @ ''.''
                                @ pad 2 (nat ((int a * 100 div b) mod 100)))\<rparr>"


text \<open>Commits by the given authors, in order.\<close>

definition by_authors :: "string list \<Rightarrow> gh_commit list" where
  "by_authors ks = map (\<lambda>k. sample_commit ''c0'' k ''work'' (Some ''api'')) ks"


section \<open>Properties of the Commit Filter\<close>

lemma applyFilters_fst: "fst (applyFilters cs repos d) = filter (keeps repos) cs"
  by (simp add: applyFilters_def Let_def)

lemma applyFilters_snd:
  "snd (applyFilters cs repos d) = length (filter (keeps repos) cs) * getTokensPerCommit d"
  by (simp add: applyFilters_def Let_def)

lemma getTokensPerCommit_table:
  "getTokensPerCommit 1 = 25" "getTokensPerCommit 2 = 50" "getTokensPerCommit 3 = 100"
  "getTokensPerCommit 4 = 150" "getTokensPerCommit 5 = 200"
  by (simp_all add: getTokensPerCommit_def tokenMap_def)

lemma getTokensPerCommit_default:
  assumes "L < 1 \<or> 5 < L"
  shows "getTokensPerCommit L = 100"
proof -
  from assms have "map_of tokenMap L = None"
    by (auto simp: tokenMap_def)
  then show ?thesis
    by (simp add: getTokensPerCommit_def)
qed

text \<open>
  C3. The token estimate is the number of filtered commits times the constant of the
  level, 25, 50, 100, 150 and 200 for the levels 1 to 5; the filtered list itself does
  not depend on the level, so changing only the level changes the estimate by the table.
\<close>

theorem token_estimate_table:
  "snd (applyFilters cs repos 1) = length (fst (applyFilters cs repos 1)) * 25
   \<and> snd (applyFilters cs repos 2) = length (fst (applyFilters cs repos 2)) * 50
   \<and> snd (applyFilters cs repos 3) = length (fst (applyFilters cs repos 3)) * 100
   \<and> snd (applyFilters cs repos 4) = length (fst (applyFilters cs repos 4)) * 150
   \<and> snd (applyFilters cs repos 5) = length (fst (applyFilters cs repos 5)) * 200
   \<and> fst (applyFilters cs repos L) = fst (applyFilters cs repos L')"
  by (simp add: applyFilters_fst applyFilters_snd getTokensPerCommit_table)

text \<open>
  C9. Outside the levels 1 to 5 the constant per commit is 100, the constant of level 3,
  and the estimate is the number of filtered commits times 100.
\<close>

theorem token_estimate_out_of_range:
  assumes "L < 1 \<or> 5 < L"
  shows "getTokensPerCommit L = 100
         \<and> getTokensPerCommit L = getTokensPerCommit 3
         \<and> snd (applyFilters cs repos L) = length (fst (applyFilters cs repos L)) * 100"
  using getTokensPerCommit_default [OF assms]
  by (simp add: applyFilters_fst applyFilters_snd getTokensPerCommit_table)

theorem token_estimate_out_of_range_witness:
  "((7::int) < 1 \<or> 5 < (7::int))
   \<and> getTokensPerCommit 7 = 100
   \<and> snd (applyFilters [sample_commit ''a1'' ''ann'' ''fix'' (Some ''api'')] [] 7) = 100"
  using token_estimate_out_of_range
          [of 7 "[sample_commit ''a1'' ''ann'' ''fix'' (Some ''api'')]" "[]"]
  by (simp add: applyFilters_fst keeps_def)

lemma repoName_tagged:
  "repository c = Some r \<Longrightarrow> repo_name r \<noteq> [] \<Longrightarrow> repoName c = repo_name r"
  by (simp add: repoName_def)

lemma repoName_untagged: "repository c = None \<Longrightarrow> repoName c = ''unknown''"
  by (simp add: repoName_def)

lemma keeps_empty: "keeps [] c"
  by (simp add: keeps_def)

lemma keeps_nonempty: "repos \<noteq> [] \<Longrightarrow> keeps repos c = (repoName c \<in> set repos)"
  by (simp add: keeps_def)

text \<open>
  C4. With an empty selection the filtered list is the commit list itself. With a
  non-empty selection it is the commits whose repository name is in the selection, in
  their original order: a subsequence of the input in which every selected commit keeps
  its multiplicity. The repository name of a commit is the name of its tag (for a commit
  without a tag, see C10).
\<close>

theorem filter_by_repository:
  "fst (applyFilters cs [] d) = cs
   \<and> (repos \<noteq> [] \<longrightarrow>
        fst (applyFilters cs repos d) = filter (\<lambda>c. repoName c \<in> set repos) cs)
   \<and> subseq (fst (applyFilters cs repos d)) cs
   \<and> (\<forall>c r. repository c = Some r \<longrightarrow> repo_name r \<noteq> [] \<longrightarrow> repoName c = repo_name r)"
proof -
  have empty: "fst (applyFilters cs [] d) = cs"
    by (simp add: applyFilters_fst keeps_empty)
  have sel: "fst (applyFilters cs repos d) = filter (\<lambda>c. repoName c \<in> set repos) cs"
    if "repos \<noteq> []"
    using that by (simp add: applyFilters_fst keeps_nonempty cong: filter_cong)
  have sub: "subseq (fst (applyFilters cs repos d)) cs"
    by (simp add: applyFilters_fst)
  from empty sel sub repoName_tagged show ?thesis
    by blast
qed

theorem filter_by_repository_witness:
  "[''api''] \<noteq> []
   \<and> fst (applyFilters
        [sample_commit ''a1'' ''ann'' ''fix'' (Some ''api''),
         sample_commit ''b2'' ''bob'' ''docs'' (Some ''web''),
         sample_commit ''c3'' ''cy'' ''feat'' (Some ''api'')] [''api''] 3)
      = [sample_commit ''a1'' ''ann'' ''fix'' (Some ''api''),
         sample_commit ''c3'' ''cy'' ''feat'' (Some ''api'')]
   \<and> repoName (sample_commit ''b2'' ''bob'' ''docs'' (Some ''web'')) = ''web''"
  using filter_by_repository
          [of "[sample_commit ''a1'' ''ann'' ''fix'' (Some ''api''),
                sample_commit ''b2'' ''bob'' ''docs'' (Some ''web''),
                sample_commit ''c3'' ''cy'' ''feat'' (Some ''api'')]" 3 "[''api'']"]
  by (simp add: repoName_def sample_commit_def)

text \<open>
  C10. A commit without a repository tag is filtered under the name \<open>unknown\<close>: it is
  kept when the selection is empty, and under a non-empty selection exactly when
  \<open>unknown\<close> is selected.
\<close>

theorem untagged_commit_is_unknown:
  assumes "repository c = None"
  shows "repoName c = ''unknown''
         \<and> fst (applyFilters [c] [] d) = [c]
         \<and> (repos \<noteq> [] \<longrightarrow>
              fst (applyFilters [c] repos d) = (if ''unknown'' \<in> set repos then [c] else []))
         \<and> (c \<in> set (fst (applyFilters cs repos d))
              \<longleftrightarrow> c \<in> set cs \<and> (repos = [] \<or> ''unknown'' \<in> set repos))"
  using assms
  by (auto simp: applyFilters_fst keeps_def repoName_untagged)

theorem untagged_commit_is_unknown_witness:
  "repository (sample_commit ''d4'' ''dee'' ''wip'' None) = None
   \<and> repoName (sample_commit ''d4'' ''dee'' ''wip'' None) = ''unknown''
   \<and> fst (applyFilters [sample_commit ''d4'' ''dee'' ''wip'' None] [''web'', ''unknown''] 3)
       = [sample_commit ''d4'' ''dee'' ''wip'' None]
   \<and> fst (applyFilters [sample_commit ''d4'' ''dee'' ''wip'' None] [''web''] 3) = []"
  using untagged_commit_is_unknown
          [of "sample_commit ''d4'' ''dee'' ''wip'' None" _ "[''web'', ''unknown'']"]
        untagged_commit_is_unknown
          [of "sample_commit ''d4'' ''dee'' ''wip'' None" _ "[''web'']"]
  by (simp add: sample_commit_def)

section \<open>Properties of the Pagination Fetcher\<close>

lemma fetch_loop_full:
  assumes "full_page (remote (page_request s dr page))"
  shows "fetch_loop remote s dr acc page issued =
         fetch_loop remote s dr
           (acc @ map (withRepo (selectedRepo s)) (page_items (remote (page_request s dr page))))
           (Suc page) (issued @ [page_request s dr page])"
proof -
  from assms obtain p where r: "remote (page_request s dr page) = Reply True p"
    and len: "perPage \<le> length p"
    by (auto simp: full_page_def split: reply.splits)
  from len have "p \<noteq> []" "\<not> length p < perPage"
    by (auto simp: perPage_def)
  then show ?thesis
    by (subst fetch_loop.simps) (simp add: r page_items_def Let_def)
qed

lemma fetch_loop_short:
  assumes "short_page (remote (page_request s dr page))"
  shows "fetch_loop remote s dr acc page issued =
         Some (Finished (acc @ map (withRepo (selectedRepo s))
                                 (page_items (remote (page_request s dr page)))),
               issued @ [page_request s dr page])"
proof -
  from assms obtain p where r: "remote (page_request s dr page) = Reply True p"
    and len: "length p < perPage"
    by (auto simp: short_page_def split: reply.splits)
  show ?thesis
    by (subst fetch_loop.simps) (simp add: r len page_items_def Let_def)
qed

lemma fetch_loop_failed:
  assumes "failed (remote (page_request s dr page))"
  shows "fetch_loop remote s dr acc page issued = Some (Thrown, issued @ [page_request s dr page])"
  using assms
  by (subst fetch_loop.simps) (auto simp: failed_def split: reply.splits)

lemma pages_step:
  "lo < hi \<Longrightarrow> pages remote s dr lo hi =
     map (withRepo (selectedRepo s)) (page_items (remote (page_request s dr lo)))
     @ pages remote s dr (Suc lo) hi"
  by (simp add: pages_def upt_conv_Cons)

lemma page_requests_step:
  "lo < hi \<Longrightarrow> page_requests s dr lo hi = page_request s dr lo # page_requests s dr (Suc lo) hi"
  by (simp add: page_requests_def upt_conv_Cons)

lemma fetch_loop_full_run:
  assumes "\<forall>k. lo \<le> k \<and> k < lo + d \<longrightarrow> full_page (remote (page_request s dr k))"
  shows "fetch_loop remote s dr acc lo issued =
         fetch_loop remote s dr (acc @ pages remote s dr lo (lo + d)) (lo + d)
           (issued @ page_requests s dr lo (lo + d))"
  using assms
proof (induction d arbitrary: lo acc issued)
  case 0
  show ?case by (simp add: pages_def page_requests_def)
next
  case (Suc d)
  have first: "full_page (remote (page_request s dr lo))"
    using Suc.prems by simp
  have rest: "\<forall>k. Suc lo \<le> k \<and> k < Suc lo + d \<longrightarrow> full_page (remote (page_request s dr k))"
    using Suc.prems by simp
  have "fetch_loop remote s dr acc lo issued =
        fetch_loop remote s dr
          (acc @ map (withRepo (selectedRepo s)) (page_items (remote (page_request s dr lo))))
          (Suc lo) (issued @ [page_request s dr lo])"
    using first by (rule fetch_loop_full)
  also have "\<dots> = fetch_loop remote s dr
          ((acc @ map (withRepo (selectedRepo s)) (page_items (remote (page_request s dr lo))))
             @ pages remote s dr (Suc lo) (Suc lo + d)) (Suc lo + d)
          ((issued @ [page_request s dr lo]) @ page_requests s dr (Suc lo) (Suc lo + d))"
    using rest by (rule Suc.IH)
  finally show ?case
    by (simp add: pages_step [of lo "Suc (lo + d)"] page_requests_step [of lo "Suc (lo + d)"])
qed

lemma fetch_loop_returns_not_all_full:
  assumes "fetch_loop remote s dr acc page issued = Some y"
  shows "\<exists>k\<ge>page. \<not> full_page (remote (page_request s dr k))"
  using assms
proof (induction rule: fetch_loop.raw_induct [rotated 1, consumes 1])
  case (1 f remote s dr acc page issued y)
  show ?case
  proof (cases "full_page (remote (page_request s dr page))")
    case True
    then obtain p where r: "remote (page_request s dr page) = Reply True p"
      and len: "perPage \<le> length p"
      by (auto simp: full_page_def split: reply.splits)
    from len have "p \<noteq> []" "\<not> length p < perPage"
      by (auto simp: perPage_def)
    with 1(2) r obtain a c where "f remote s dr a (page + 1) c = Some y"
      by (auto simp: Let_def)
    then have "\<exists>k\<ge>page + 1. \<not> full_page (remote (page_request s dr k))"
      by (rule 1(1))
    then show ?thesis
      by (auto intro: Suc_leD)
  next
    case False
    then show ?thesis by blast
  qed
qed

lemma fetch_loop_diverges:
  assumes "\<forall>k\<ge>page. full_page (remote (page_request s dr k))"
  shows "fetch_loop remote s dr acc page issued = None"
proof (cases "fetch_loop remote s dr acc page issued")
  case None
  then show ?thesis .
next
  case (Some y)
  then have "\<exists>k\<ge>page. \<not> full_page (remote (page_request s dr k))"
    by (rule fetch_loop_returns_not_all_full)
  with assms show ?thesis by blast
qed

lemma fetch_loop_upto:
  assumes "1 \<le> n"
    and "\<forall>k. 1 \<le> k \<and> k < n \<longrightarrow> full_page (remote (page_request s dr k))"
  shows "fetch_loop remote s dr [] 1 [] =
         fetch_loop remote s dr (pages remote s dr 1 n) n (page_requests s dr 1 n)"
proof -
  from assms(1) obtain d where n: "n = 1 + d"
    by (auto simp: le_iff_add)
  from assms(2) have "\<forall>k. 1 \<le> k \<and> k < 1 + d \<longrightarrow> full_page (remote (page_request s dr k))"
    by (simp add: n)
  then have "fetch_loop remote s dr [] 1 [] =
             fetch_loop remote s dr ([] @ pages remote s dr 1 (1 + d)) (1 + d)
               ([] @ page_requests s dr 1 (1 + d))"
    by (rule fetch_loop_full_run)
  then show ?thesis
    by (simp add: n)
qed

lemma pages_snoc:
  "lo \<le> n \<Longrightarrow> pages remote s dr lo (Suc n) =
     pages remote s dr lo n
     @ map (withRepo (selectedRepo s)) (page_items (remote (page_request s dr n)))"
  by (simp add: pages_def)

lemma page_requests_snoc:
  "lo \<le> n \<Longrightarrow> page_requests s dr lo (Suc n) = page_requests s dr lo n @ [page_request s dr n]"
  by (simp add: page_requests_def)

text \<open>
  C5. With a repository and a date range selected: when the pages \<open>1, \<dots>, n - 1\<close> are
  full (at least 100 commits) and page \<open>n\<close> is short (fewer than 100, possibly none),
  the fetcher requests exactly the pages \<open>1, \<dots>, n\<close>, once each and in order, and
  stores the tagged commits of all of them in page order; when every page is full it
  never returns. Replies of sizes 100, 100, 37 give 3 requests and 237 commits; a first
  reply of size 0 gives 1 request and no commit.
\<close>

theorem fetchCommits_pagination:
  assumes repo: "selectedRepo s \<noteq> []" and range: "dateRange s = Some dr"
  shows "(1 \<le> n
            \<and> (\<forall>k. 1 \<le> k \<and> k < n \<longrightarrow> full_page (remote (page_request s dr k)))
            \<and> short_page (remote (page_request s dr n))
          \<longrightarrow> fetchCommits remote s =
                Some (s\<lparr>loading := False,
                        commits := pages remote s dr 1 (Suc n),
                        filteredCommits := pages remote s dr 1 (Suc n),
                        toasts := toasts s @ [loaded_toast (length (pages remote s dr 1 (Suc n)))],
                        requests := requests s @ page_requests s dr 1 (Suc n)\<rparr>))
         \<and> ((\<forall>k\<ge>1. full_page (remote (page_request s dr k))) \<longrightarrow> fetchCommits remote s = None)"
proof (intro conjI impI)
  assume h: "1 \<le> n
            \<and> (\<forall>k. 1 \<le> k \<and> k < n \<longrightarrow> full_page (remote (page_request s dr k)))
            \<and> short_page (remote (page_request s dr n))"
  then have "fetch_loop remote s dr [] 1 [] =
        fetch_loop remote s dr (pages remote s dr 1 n) n (page_requests s dr 1 n)"
    by (intro fetch_loop_upto) simp_all
  also have "\<dots> = Some (Finished (pages remote s dr 1 (Suc n)), page_requests s dr 1 (Suc n))"
    using h by (simp add: fetch_loop_short pages_snoc page_requests_snoc)
  finally show "fetchCommits remote s =
                Some (s\<lparr>loading := False,
                        commits := pages remote s dr 1 (Suc n),
                        filteredCommits := pages remote s dr 1 (Suc n),
                        toasts := toasts s @ [loaded_toast (length (pages remote s dr 1 (Suc n)))],
                        requests := requests s @ page_requests s dr 1 (Suc n)\<rparr>)"
    using repo range by (simp add: fetchCommits_def)
next
  assume "\<forall>k\<ge>1. full_page (remote (page_request s dr k))"
  then have "fetch_loop remote s dr [] 1 [] = None"
    by (rule fetch_loop_diverges)
  then show "fetchCommits remote s = None"
    using repo range by (simp add: fetchCommits_def)
qed

text \<open>
  C6. With a repository and a date range selected: when the pages before \<open>n\<close> are full
  and the request of page \<open>n\<close> fails (the promise is rejected or the response is not
  ok), the fetcher has requested the pages \<open>1, \<dots>, n\<close> once each and no other, shows
  the one error toast, and leaves the stored commit list empty; the commits of the pages
  already read are dropped.
\<close>

theorem fetchCommits_failure:
  assumes repo: "selectedRepo s \<noteq> []" and range: "dateRange s = Some dr"
    and n: "1 \<le> n"
    and full: "\<forall>k. 1 \<le> k \<and> k < n \<longrightarrow> full_page (remote (page_request s dr k))"
    and bad: "failed (remote (page_request s dr n))"
  shows "fetchCommits remote s =
           Some (s\<lparr>loading := False,
                   commits := [],
                   toasts := toasts s @ [error_toast],
                   requests := requests s @ page_requests s dr 1 (Suc n)\<rparr>)"
proof -
  have "fetch_loop remote s dr [] 1 [] =
        fetch_loop remote s dr (pages remote s dr 1 n) n (page_requests s dr 1 n)"
    using n full by (rule fetch_loop_upto)
  also have "\<dots> = Some (Thrown, page_requests s dr 1 (Suc n))"
    using bad n by (simp add: fetch_loop_failed page_requests_snoc)
  finally show ?thesis
    using repo range by (simp add: fetchCommits_def)
qed


lemma scripted_1: "scripted (r # rs) (page_request s dr (Suc 0)) = r"
  by (simp add: scripted_def page_request_def)

lemma scripted_2: "scripted (r1 # r2 # rs) (page_request s dr 2) = r2"
  by (simp add: scripted_def page_request_def)

lemma scripted_3: "scripted (r1 # r2 # r3 # rs) (page_request s dr 3) = r3"
  by (simp add: scripted_def page_request_def)

lemma upto3: "[Suc 0..<4] = [Suc 0, 2, 3]"
  by (simp add: upt_rec)

lemma upto1: "[Suc 0..<2] = [Suc 0]"
  by (simp add: upt_rec)

theorem fetchCommits_pagination_witness:
  "(\<exists>s'. fetchCommits (scripted [page_of_size 100, page_of_size 100, page_of_size 37]) sample_state
            = Some s'
          \<and> length (commits s') = 237
          \<and> commits s' = filteredCommits s'
          \<and> map req_page (requests s') = [1, 2, 3])
   \<and> (\<exists>s'. fetchCommits (scripted [page_of_size 0]) sample_state = Some s'
          \<and> commits s' = []
          \<and> map req_page (requests s') = [1])"
proof -
  let ?three = "scripted [page_of_size 100, page_of_size 100, page_of_size 37]"
  let ?none = "scripted [page_of_size 0]"
  have repo: "selectedRepo sample_state \<noteq> []"
    and range: "dateRange sample_state = Some sample_range"
    by (simp_all add: sample_state_def)
  have full: "full_page (?three (page_request sample_state sample_range k))"
    if "1 \<le> k \<and> k < 3" for k
  proof -
    from that have "k = 1 \<or> k = 2" by arith
    then show ?thesis
      by (auto simp: scripted_1 scripted_2 page_of_size_def full_page_def perPage_def)
  qed
  have short: "short_page (?three (page_request sample_state sample_range 3))"
    by (simp add: scripted_3 page_of_size_def short_page_def perPage_def)
  have three: "fetchCommits ?three sample_state =
          Some (sample_state\<lparr>loading := False,
                  commits := pages ?three sample_state sample_range 1 (Suc 3),
                  filteredCommits := pages ?three sample_state sample_range 1 (Suc 3),
                  toasts := toasts sample_state
                    @ [loaded_toast (length (pages ?three sample_state sample_range 1 (Suc 3)))],
                  requests := requests sample_state
                    @ page_requests sample_state sample_range 1 (Suc 3)\<rparr>)"
    using fetchCommits_pagination [OF repo range, of 3 ?three] full short by simp
  have len: "length (pages ?three sample_state sample_range 1 (Suc 3)) = 237"
    by (simp add: pages_def upto3 scripted_1 scripted_2 scripted_3 page_of_size_def page_items_def)
  have reqs: "map req_page (page_requests sample_state sample_range 1 (Suc 3)) = [1, 2, 3]"
    by (simp add: page_requests_def upto3 page_request_def)
  have short0: "short_page (?none (page_request sample_state sample_range 1))"
    by (simp add: scripted_1 page_of_size_def short_page_def perPage_def)
  have none: "fetchCommits ?none sample_state =
          Some (sample_state\<lparr>loading := False,
                  commits := pages ?none sample_state sample_range 1 (Suc 1),
                  filteredCommits := pages ?none sample_state sample_range 1 (Suc 1),
                  toasts := toasts sample_state
                    @ [loaded_toast (length (pages ?none sample_state sample_range 1 (Suc 1)))],
                  requests := requests sample_state
                    @ page_requests sample_state sample_range 1 (Suc 1)\<rparr>)"
    using fetchCommits_pagination [OF repo range, of 1 ?none] short0 by simp
  have empty: "pages ?none sample_state sample_range 1 (Suc 1) = []"
    by (simp add: pages_def upto1 scripted_1 page_of_size_def page_items_def)
  have reqs0: "map req_page (page_requests sample_state sample_range 1 (Suc 1)) = [1]"
    by (simp add: page_requests_def upto1 page_request_def)
  from three len reqs none empty reqs0 show ?thesis
    by (simp add: sample_state_def)
qed

theorem fetchCommits_failure_witness:
  "\<exists>s'. fetchCommits (scripted [page_of_size 100, Reply False []]) sample_state = Some s'
        \<and> commits s' = []
        \<and> filteredCommits s' = filteredCommits sample_state
        \<and> toasts s' = [error_toast]
        \<and> map req_page (requests s') = [1, 2]
        \<and> \<not> loading s'"
proof -
  let ?remote = "scripted [page_of_size 100, Reply False []]"
  have repo: "selectedRepo sample_state \<noteq> []"
    and range: "dateRange sample_state = Some sample_range"
    by (simp_all add: sample_state_def)
  have full: "\<forall>k. 1 \<le> k \<and> k < 2 \<longrightarrow> full_page (?remote (page_request sample_state sample_range k))"
  proof (intro allI impI)
    fix k :: nat
    assume "1 \<le> k \<and> k < 2"
    then have "k = 1" by arith
    then show "full_page (?remote (page_request sample_state sample_range k))"
      by (simp add: scripted_1 page_of_size_def full_page_def perPage_def)
  qed
  have bad: "failed (?remote (page_request sample_state sample_range 2))"
    by (simp add: scripted_2 failed_def)
  have "[Suc 0..<3] = [Suc 0, 2]"
    by (simp add: upt_rec)
  then have reqs: "map req_page (page_requests sample_state sample_range 1 (Suc 2)) = [1, 2]"
    by (simp add: page_requests_def page_request_def)
  from fetchCommits_failure [OF repo range _ full bad] reqs show ?thesis
    by (simp add: sample_state_def)
qed

section \<open>Decimal text\<close>

lemma digit_char_cases:
  assumes "d < 10"
  shows "d = 0 \<or> d = 1 \<or> d = 2 \<or> d = 3 \<or> d = 4 \<or> d = 5 \<or> d = 6 \<or> d = 7 \<or> d = 8 \<or> d = (9::nat)"
  using assms by arith

lemma digit_char_digit: "is_digit (digit_char d)"
proof -
  have "d mod 10 < 10" by simp
  from digit_char_cases [OF this] show ?thesis
    unfolding digit_char_def is_digit_def by (elim disjE) simp_all
qed

lemma digit_char_value: "d < 10 \<Longrightarrow> of_char (digit_char d) - 48 = d"
proof -
  assume "d < 10"
  from digit_char_cases [OF this] show ?thesis
    unfolding digit_char_def by (elim disjE) simp_all
qed

lemma show_nat_digits: "\<forall>ch\<in>set (show_nat n). is_digit ch"
proof (induction n rule: show_nat.induct)
  case (1 n)
  show ?case
  proof (cases "n < 10")
    case True
    then show ?thesis
      by (subst show_nat.simps) (simp add: digit_char_digit)
  next
    case False
    with 1 show ?thesis
      by (subst show_nat.simps) (simp add: digit_char_digit)
  qed
qed

lemma show_nat_nonempty: "show_nat n \<noteq> []"
  by (subst show_nat.simps) simp

lemma read_digits_snoc:
  "read_digits acc (s @ [ch]) =
     (case read_digits acc s of
        None \<Rightarrow> None
      | Some a \<Rightarrow> if is_digit ch then Some (10 * a + (of_char ch - 48)) else None)"
  by (induction s arbitrary: acc) (simp_all add: is_digit_def)

lemma read_digits_show_nat: "read_digits 0 (show_nat n) = Some n"
proof (induction n rule: show_nat.induct)
  case (1 n)
  show ?case
  proof (cases "n < 10")
    case True
    then have "show_nat n = [digit_char n]"
      by (subst show_nat.simps) simp
    with True digit_char_digit [of n] show ?thesis
      by (simp add: digit_char_value is_digit_def)
  next
    case False
    then have "show_nat n = show_nat (n div 10) @ [digit_char (n mod 10)]"
      by (subst show_nat.simps) simp
    with False 1 show ?thesis
      by (simp add: read_digits_snoc digit_char_digit digit_char_value)
  qed
qed

lemma read_nat_show_nat: "read_nat (show_nat n) = Some n"
  by (simp add: read_nat_def show_nat_nonempty read_digits_show_nat)


section \<open>Properties of the Aggregate Report Builder\<close>

lemma time_span_div:
  "time_span dr = - ((getTime (range_from dr) - getTime (range_to dr)) div ms_per_day)"
proof -
  have "time_span dr = \<lceil>real_of_int (getTime (range_to dr) - getTime (range_from dr)) / real_of_int ms_per_day\<rceil>"
    by (simp add: time_span_def)
  also have "\<dots> = - (- (getTime (range_to dr) - getTime (range_from dr)) div ms_per_day)"
    by (rule ceiling_divide_eq_div)
  finally show ?thesis by simp
qed

lemma time_span_same: "time_span \<lparr>range_from = d, range_to = d\<rparr> = 0"
  by (simp add: time_span_def)

lemma time_span_sub_day:
  assumes "getTime (range_from dr) < getTime (range_to dr)"
    and "getTime (range_to dr) - getTime (range_from dr) \<le> ms_per_day"
  shows "time_span dr = 1"
proof -
  let ?x = "getTime (range_from dr) - getTime (range_to dr)"
  from assms have "- ms_per_day \<le> ?x" "?x < 0" by simp_all
  moreover have "0 < ms_per_day" by (simp add: ms_per_day_def)
  ultimately have "(?x + ms_per_day) div ms_per_day = 0"
    by (intro div_pos_pos_trivial) simp_all
  with \<open>0 < ms_per_day\<close> have "?x div ms_per_day = -1"
    by simp
  then show ?thesis
    by (simp add: time_span_div)
qed

lemma show_int_zero: "show_int 0 = ''0''"
  by (simp add: show_int_def show_nat.simps digit_char_def)

lemma zero_day_summary:
  "sublist (''- **Time span:** 0 days'' @ nl @ ''- **Average commits/day:** Infinity'' @ nl)
     (summary P (c # fc) rs \<lparr>range_from = d, range_to = d\<rparr> L)"
proof -
  define before where "before = nl @ ''## Summary'' @ nl @ nl
     @ ''- **Commits analyzed:** '' @ show_nat (length (c # fc)) @ nl
     @ ''- **Repositories:** '' @ (if length rs > 0 then show_nat (length rs) else ''All'') @ nl"
  define after where "after = nl
     @ ''### Repository Breakdown'' @ nl
     @ getRepositoryBreakdown (c # fc) @ nl
     @ nl
     @ ''### Author Analysis'' @ nl
     @ getAuthorAnalysis (c # fc) @ nl
     @ nl
     @ ''---'' @ nl
     @ nl
     @ ''*This data is optimized for LLM analysis with '' @ show_int L
     @ ''/5 detail level. Ask questions about patterns, productivity, code changes, or development insights.*''"
  have avg: "toFixed P (commits_per_day (length (c # fc)) \<lparr>range_from = d, range_to = d\<rparr>) = ''Infinity''"
    by (simp add: commits_per_day_def time_span_same toFixed_def)
  have "summary P (c # fc) rs \<lparr>range_from = d, range_to = d\<rparr> L =
        before @ (''- **Time span:** 0 days'' @ nl @ ''- **Average commits/day:** Infinity'' @ nl) @ after"
    unfolding summary_def avg time_span_same show_int_zero before_def after_def
    by (simp only: append_assoc append_Cons append_Nil)
  then show ?thesis
    by (simp only: sublist_appendI)
qed

text \<open>
  C1. What the code computes for a range whose two ends are the same instant: a span of
  0 days, and an average that is the positive infinity (\<open>NaN\<close> for no commit), printed as
  such in the summary of the document. From 2024-01-01 to 2024-01-03 the span is 2 days.
\<close>

theorem zero_day_span:
  "time_span \<lparr>range_from = d, range_to = d\<rparr> = 0
   \<and> commits_per_day (Suc n) \<lparr>range_from = d, range_to = d\<rparr> = PosInfinity
   \<and> commits_per_day 0 \<lparr>range_from = d, range_to = d\<rparr> = NaN
   \<and> toFixed P (commits_per_day (Suc n) \<lparr>range_from = d, range_to = d\<rparr>) = ''Infinity''
   \<and> sublist (''- **Time span:** 0 days'' @ nl @ ''- **Average commits/day:** Infinity'' @ nl)
        (summary P (c # fc) rs \<lparr>range_from = d, range_to = d\<rparr> L)
   \<and> time_span sample_range = 2"
proof -
  have "time_span sample_range = 2"
    by (simp add: time_span_div sample_range_def utc_midnight_def ms_per_day_def)
  with zero_day_summary [of P c fc rs d L] show ?thesis
    by (simp only: time_span_same commits_per_day_def toFixed_def Let_def) simp
qed

lemma lines_nonempty: "lines s \<noteq> []"
  by (induction s) (auto split: list.splits)

lemma lines_line: "single_line a \<Longrightarrow> lines (a @ nl @ b) = a # lines b"
proof (induction a)
  case Nil
  show ?case by (simp add: nl_def)
next
  case (Cons ch a)
  then have "ch \<noteq> CHR 0x0A" and "single_line a"
    by (auto simp: single_line_def)
  with Cons.IH show ?case by simp
qed

lemma single_line_Nil [simp]: "single_line []"
  by (simp add: single_line_def)

lemma single_line_Cons [simp]: "single_line (ch # s) \<longleftrightarrow> ch \<noteq> CHR 0x0A \<and> single_line s"
  by (auto simp: single_line_def)

lemma lines_nl: "lines (nl @ b) = [] # lines b"
  by (simp add: nl_def)

lemma not_digit_nl: "\<not> is_digit CHR 0x0A"
  by (simp add: is_digit_def)

lemma single_line_digits: "\<forall>ch\<in>set s. is_digit ch \<Longrightarrow> single_line s"
  using not_digit_nl by (auto simp: single_line_def)

lemma is_digit_zero: "is_digit CHR ''0''"
  by (simp add: is_digit_def)

lemma pad_digits: "\<forall>ch\<in>set (pad w n). is_digit ch"
  using show_nat_digits [of n] by (auto simp: pad_def is_digit_zero)

lemma single_line_append [simp]: "single_line (a @ b) \<longleftrightarrow> single_line a \<and> single_line b"
  by (auto simp: single_line_def)

lemma single_line_show_nat [simp]: "single_line (show_nat n)"
  by (rule single_line_digits) (rule show_nat_digits)

lemma single_line_pad [simp]: "single_line (pad w n)"
  by (rule single_line_digits) (rule pad_digits)

lemma single_line_date [simp]: "single_line (format_yyyy_MM_dd d)"
  by (simp add: format_yyyy_MM_dd_def)

lemma single_line_join:
  "single_line sep \<Longrightarrow> \<forall>r\<in>set rs. single_line r \<Longrightarrow> single_line (join sep rs)"
  by (induction sep rs rule: join.induct) simp_all

lemma takeWhile_digits:
  "\<forall>ch\<in>set s. is_digit ch \<Longrightarrow> \<not> is_digit x \<Longrightarrow> takeWhile is_digit (s @ x # t) = s"
  by (induction s) simp_all

lemma stated_total_header:
  assumes user: "single_line u" and repos: "\<forall>r\<in>set rs. single_line r"
  shows "stated_total
           (header P cs fc u rs dr L t
            @ rest) = Some (length fc)"
proof -
  define l0 where "l0 = ''# GitHub Commit Analysis - Optimized for LLM''"
  define l2 where "l2 = ''**User:** '' @ u"
  define l3 where "l3 = ''**Repositories:** ''
        @ (if length rs > 0 then join '', '' rs else ''All repositories'')"
  define l4 where "l4 = ''**Date Range:** '' @ format_yyyy_MM_dd (range_from dr)
        @ '' to '' @ format_yyyy_MM_dd (range_to dr)"
  define suffix where "suffix = '' (filtered from '' @ show_nat (length cs) @ '')''"
  define l5 where "l5 = total_marker @ show_nat (length fc) @ suffix"
  define below where "below = ''**Detail Level:** '' @ getDetailLevelName L @ nl
     @ ''**Estimated Tokens:** '' @ toLocaleString P t @ nl
     @ ''**Generated:** '' @ format_yyyy_MM_dd_HH_mm_ss (now P) @ nl
     @ nl @ ''---'' @ nl @ nl @ ''## Commit Data'' @ nl @ nl @ rest"
  have doc: "header P cs fc u rs dr L t
            @ rest = l0 @ nl @ nl @ l2 @ nl @ l3 @ nl @ l4 @ nl @ l5 @ nl @ below"
    unfolding header_def l0_def l2_def l3_def l4_def l5_def suffix_def below_def total_marker_def
    by (simp only: append_assoc)
  have s0: "single_line l0" by (simp add: l0_def)
  have s2: "single_line l2" using user by (simp add: l2_def)
  have "single_line (join '', '' rs)"
    using repos by (intro single_line_join) simp_all
  then have s3: "single_line l3" by (simp add: l3_def)
  have s4: "single_line l4" by (simp add: l4_def)
  have s5: "single_line l5" by (simp add: l5_def suffix_def total_marker_def)
  have "lines (l5 @ nl @ below) = l5 # lines below"
    using s5 by (rule lines_line)
  then have "lines (l4 @ nl @ l5 @ nl @ below) = l4 # l5 # lines below"
    using s4 by (simp add: lines_line)
  then have "lines (l3 @ nl @ l4 @ nl @ l5 @ nl @ below) = l3 # l4 # l5 # lines below"
    using s3 by (simp add: lines_line)
  then have "lines (l2 @ nl @ l3 @ nl @ l4 @ nl @ l5 @ nl @ below) = l2 # l3 # l4 # l5 # lines below"
    using s2 by (simp add: lines_line)
  then have "lines (nl @ l2 @ nl @ l3 @ nl @ l4 @ nl @ l5 @ nl @ below)
        = [] # l2 # l3 # l4 # l5 # lines below"
    by (simp only: lines_nl)
  then have lines: "lines (l0 @ nl @ nl @ l2 @ nl @ l3 @ nl @ l4 @ nl @ l5 @ nl @ below)
        = l0 # [] # l2 # l3 # l4 # l5 # lines below"
    using s0 by (simp add: lines_line)
  have n0: "\<not> prefix total_marker l0" by (simp add: total_marker_def l0_def)
  have n1: "\<not> prefix total_marker []" by (simp add: total_marker_def)
  have n2: "\<not> prefix total_marker l2" by (simp add: total_marker_def l2_def)
  have n3: "\<not> prefix total_marker l3" by (simp add: total_marker_def l3_def)
  have n4: "\<not> prefix total_marker l4" by (simp add: total_marker_def l4_def)
  have y5: "prefix total_marker l5" by (simp add: l5_def)
  have "takeWhile is_digit (show_nat (length fc) @ suffix) = show_nat (length fc)"
    unfolding suffix_def by (simp add: takeWhile_digits [OF show_nat_digits] is_digit_def)
  then have "read_nat (takeWhile is_digit (drop (length total_marker) l5)) = Some (length fc)"
    by (simp add: l5_def read_nat_show_nat)
  with n0 n1 n2 n3 n4 y5 show ?thesis
    by (simp add: stated_total_def doc lines)
qed


lemma map_enumerate_nth:
  "map (\<lambda>(i, x). f x (i + 1)) (enumerate 0 xs) = map (\<lambda>i. f (xs ! i) (Suc i)) [0..<length xs]"
  by (rule nth_equalityI) (simp_all add: nth_enumerate_eq)

lemma commitDetails_blocks:
  "commitDetails fc L =
     join nl (map (\<lambda>i. formatCommitByDetailLevel (fc ! i) (Suc i) L) [0..<length fc])"
  unfolding commitDetails_def
  by (simp only: map_enumerate_nth [of "\<lambda>c n. formatCommitByDetailLevel c n L"])



text \<open>
  C8. The document is the header, the blocks of the filtered commits and the summary. Its
  blocks are the renderings of the commits in input order, the \<open>i\<close>-th commit with
  sequence number \<open>i + 1\<close>, joined by line breaks. When the user name and the selected
  repository names contain no line break, the total read back from the document is the
  length of the filtered list.
\<close>

theorem report_total_and_blocks:
  assumes "single_line u" and "\<forall>r\<in>set rs. single_line r"
  shows "stated_total (generateOptimizedFormat P cs fc u rs dr L t) = Some (length fc)
         \<and> generateOptimizedFormat P cs fc u rs dr L t =
             header P cs fc u rs dr L t
             @ join nl (map (\<lambda>i. formatCommitByDetailLevel (fc ! i) (Suc i) L) [0..<length fc])
             @ summary P fc rs dr L"
proof -
  have doc: "generateOptimizedFormat P cs fc u rs dr L t =
             header P cs fc u rs dr L t @ (commitDetails fc L @ summary P fc rs dr L)"
    by (simp only: generateOptimizedFormat_def)
  have "stated_total (header P cs fc u rs dr L t @ (commitDetails fc L @ summary P fc rs dr L))
        = Some (length fc)"
    using assms by (rule stated_total_header)
  then have total: "stated_total (generateOptimizedFormat P cs fc u rs dr L t) = Some (length fc)"
    by (simp only: doc)
  have "generateOptimizedFormat P cs fc u rs dr L t =
             header P cs fc u rs dr L t
             @ join nl (map (\<lambda>i. formatCommitByDetailLevel (fc ! i) (Suc i) L) [0..<length fc])
             @ summary P fc rs dr L"
    by (simp only: doc commitDetails_blocks)
  with total show ?thesis
    by (rule conjI)
qed

theorem report_total_and_blocks_witness:
  "single_line ''octo''
   \<and> stated_total
        (generateOptimizedFormat sample_platform
           [sample_commit ''a1'' ''ann'' ''fix'' (Some ''api''),
            sample_commit ''b2'' ''bob'' ''docs'' (Some ''web''),
            sample_commit ''c3'' ''cy'' ''feat'' (Some ''api'')]
           [sample_commit ''a1'' ''ann'' ''fix'' (Some ''api''),
            sample_commit ''c3'' ''cy'' ''feat'' (Some ''api'')]
           ''octo'' [''api''] sample_range 3 200) = Some 2"
proof -
  have user: "single_line ''octo''"
    by simp
  have repos: "\<forall>r\<in>set [''api'']. single_line r"
    by simp
  have "stated_total
        (generateOptimizedFormat sample_platform
           [sample_commit ''a1'' ''ann'' ''fix'' (Some ''api''),
            sample_commit ''b2'' ''bob'' ''docs'' (Some ''web''),
            sample_commit ''c3'' ''cy'' ''feat'' (Some ''api'')]
           [sample_commit ''a1'' ''ann'' ''fix'' (Some ''api''),
            sample_commit ''c3'' ''cy'' ''feat'' (Some ''api'')]
           ''octo'' [''api''] sample_range 3 200)
        = Some (length [sample_commit ''a1'' ''ann'' ''fix'' (Some ''api''),
                        sample_commit ''c3'' ''cy'' ''feat'' (Some ''api'')])"
    using report_total_and_blocks [OF user repos] by (rule conjunct1)
  with user show ?thesis
    by simp
qed

section \<open>Properties of the author ranking\<close>

lemma set_first_seen [simp]: "set (first_seen ks) = set ks"
  by (induction ks) auto

lemma distinct_first_seen [simp]: "distinct (first_seen ks)"
  by (induction ks) (auto simp: distinct_removeAll)

lemma first_seen_snoc:
  "first_seen (ks @ [k]) = (if k \<in> set ks then first_seen ks else first_seen ks @ [k])"
  by (induction ks) auto

lemma bump_map:
  assumes "distinct ks"
  shows "bump k (map (\<lambda>a. (a, c a)) ks) =
           (if k \<in> set ks then map (\<lambda>a. (a, if a = k then c a + 1 else c a)) ks
            else map (\<lambda>a. (a, c a)) ks @ [(k, 1)])"
  using assms by (induction ks) auto

lemma tally_snoc: "tally (ks @ [k]) = bump k (tally ks)"
  by (simp add: tally_def)

lemma tally_counts: "tally ks = map (\<lambda>a. (a, count_list ks a)) (first_seen ks)"
proof (induction ks rule: rev_induct)
  case Nil
  show ?case by (simp add: tally_def)
next
  case (snoc k ks)
  have "tally (ks @ [k]) = bump k (map (\<lambda>a. (a, count_list ks a)) (first_seen ks))"
    by (simp add: tally_snoc snoc.IH)
  also have "\<dots> = map (\<lambda>a. (a, count_list (ks @ [k]) a)) (first_seen (ks @ [k]))"
    by (auto simp: bump_map first_seen_snoc count_list_0_iff)
  finally show ?case .
qed

lemma insort_key_map:
  "insort_key f (g x) (map g xs) = map g (insort_key (\<lambda>y. f (g y)) x xs)"
  by (induction xs) auto

lemma sort_key_map: "sort_key f (map g xs) = map g (sort_key (\<lambda>y. f (g y)) xs)"
  by (induction xs) (simp_all add: insort_key_map)

lemma object_entries_map:
  "object_entries (map (\<lambda>a. (a, c a)) ks) = map (\<lambda>a. (a, c a)) (entries_order ks)"
  by (simp add: object_entries_def entries_order_def filter_map sort_key_map comp_def)

lemma rankedAuthors_ranking:
  "rankedAuthors cs =
     map (\<lambda>a. (a, count_list (map author_name cs) a)) (ranking (map author_name cs))"
  by (simp add: rankedAuthors_def authorCount_def tally_counts object_entries_map sort_key_map
        comp_def ranking_def)

lemma set_entries_order [simp]: "set (entries_order ks) = set ks"
  by (auto simp: entries_order_def)

lemma distinct_entries_order: "distinct ks \<Longrightarrow> distinct (entries_order ks)"
  by (auto simp: entries_order_def)

lemma entries_order_plain:
  "\<forall>k\<in>set ks. \<not> is_array_index k \<Longrightarrow> entries_order ks = ks"
  by (simp add: entries_order_def filter_empty_conv filter_id_conv)

lemma set_ranking [simp]: "set (ranking ks) = set ks"
  by (simp add: ranking_def)

lemma distinct_ranking [simp]: "distinct (ranking ks)"
  by (simp add: ranking_def distinct_entries_order)

lemma ranking_descending:
  "sorted_wrt (\<lambda>a b. count_list ks b \<le> count_list ks a) (ranking ks)"
proof -
  have "sorted (map (\<lambda>a. - int (count_list ks a)) (ranking ks))"
    unfolding ranking_def by (rule sorted_sort_key)
  then show ?thesis
    by (simp add: sorted_map sorted_wrt_iff_nth_less)
qed

lemma ranking_stable:
  "filter (\<lambda>a. count_list ks a = n) (ranking ks) =
   filter (\<lambda>a. count_list ks a = n) (entries_order (first_seen ks))"
proof -
  have "filter (\<lambda>a. - int (count_list ks a) = - int n) (ranking ks) =
        filter (\<lambda>a. - int (count_list ks a) = - int n) (entries_order (first_seen ks))"
    unfolding ranking_def by (rule sort_key_stable)
  then show ?thesis by simp
qed


lemma author_name_sample [simp]: "author_name (sample_commit h who msg tag) = who"
  by (simp add: author_name_def sample_commit_def)

lemma names_by_authors [simp]: "map author_name (by_authors ks) = ks"
  by (simp add: by_authors_def comp_def)

lemma array_index_examples:
  "is_array_index ''7''" "\<not> is_array_index ''ann''" "\<not> is_array_index ''bob''"
  "\<not> is_array_index ''cy''" "index_value ''7'' = 7"
  by (simp_all add: is_array_index_def index_value_def array_index_def read_nat_def
        show_nat.simps digit_char_def)

text \<open>
  C7 (amended). For author names that are not names of members of \<^verbatim>\<open>Object.prototype\<close>:
  the author summary lists the first five entries of the ranking, one line each. The
  ranking holds every author once, with the number of the author's commits, in descending
  order of that number. The authors with equal numbers keep the order of the entries of
  the count object: names that are array indices first, in ascending numeric order, then
  the other names in the order of their first encounter. When no author name is an array
  index, that is the order of first encounter.
\<close>

theorem top_authors_ranking:
  assumes "\<forall>c\<in>set cs. author_name c \<notin> set inherited_names"
  shows "topAuthors cs = take 5 (rankedAuthors cs)
         \<and> length (topAuthors cs) \<le> 5
         \<and> rankedAuthors cs =
             map (\<lambda>a. (a, count_list (map author_name cs) a)) (ranking (map author_name cs))
         \<and> set (ranking (map author_name cs)) = set (map author_name cs)
         \<and> distinct (ranking (map author_name cs))
         \<and> sorted_wrt (\<lambda>a b. count_list (map author_name cs) b \<le> count_list (map author_name cs) a)
              (ranking (map author_name cs))
         \<and> (\<forall>n. filter (\<lambda>a. count_list (map author_name cs) a = n) (ranking (map author_name cs))
                = filter (\<lambda>a. count_list (map author_name cs) a = n)
                    (entries_order (first_seen (map author_name cs))))
         \<and> ((\<forall>a\<in>set (map author_name cs). \<not> is_array_index a)
               \<longrightarrow> entries_order (first_seen (map author_name cs)) = first_seen (map author_name cs))
         \<and> getAuthorAnalysis cs = join nl (map count_line (topAuthors cs))"
proof -
  have plain: "entries_order (first_seen (map author_name cs)) = first_seen (map author_name cs)"
    if "\<forall>a\<in>set (map author_name cs). \<not> is_array_index a"
    using that by (intro entries_order_plain) simp
  show ?thesis
    using plain ranking_descending [of "map author_name cs"] ranking_stable [of "map author_name cs"]
      rankedAuthors_ranking [of cs]
    by (simp add: topAuthors_def getAuthorAnalysis_def)
qed

theorem top_authors_ranking_witness:
  "topAuthors (by_authors [''ann'', ''bob'', ''ann'', ''cy'', ''bob'', ''ann'', ''bob'', ''cy'',
                           ''ann'', ''bob'', ''cy'', ''ann'', ''bob''])
     = [(''ann'', 5), (''bob'', 5), (''cy'', 3)]"
proof -
  let ?ks = "[''ann'', ''bob'', ''ann'', ''cy'', ''bob'', ''ann'', ''bob'', ''cy'',
              ''ann'', ''bob'', ''cy'', ''ann'', ''bob'']"
  have ok: "\<forall>c\<in>set (by_authors ?ks). author_name c \<notin> set inherited_names"
    by (simp add: by_authors_def inherited_names_def)
  have seen: "first_seen ?ks = [''ann'', ''bob'', ''cy'']"
    by simp
  have rank: "ranking ?ks = [''ann'', ''bob'', ''cy'']"
    by (simp add: ranking_def seen entries_order_def array_index_examples)
  from top_authors_ranking [OF ok] have
    "topAuthors (by_authors ?ks) = take 5 (rankedAuthors (by_authors ?ks))"
    and "rankedAuthors (by_authors ?ks) =
         map (\<lambda>a. (a, count_list (map author_name (by_authors ?ks)) a))
           (ranking (map author_name (by_authors ?ks)))"
    by blast+
  then show ?thesis
    by (simp add: rank)
qed

text \<open>
  C7 as stated fails: of two authors with one commit each, \<open>bob\<close> encountered first and
  \<open>7\<close> second, the summary lists \<open>7\<close> first.
\<close>

theorem numeric_author_name_ranks_first:
  "map fst (topAuthors (by_authors [''bob'', ''7''])) = [''7'', ''bob'']
   \<and> first_seen (map author_name (by_authors [''bob'', ''7''])) = [''bob'', ''7'']
   \<and> count_list (map author_name (by_authors [''bob'', ''7''])) ''bob''
       = count_list (map author_name (by_authors [''bob'', ''7''])) ''7''"
proof -
  have "ranking [''bob'', ''7''] = [''7'', ''bob'']"
    by (simp add: ranking_def entries_order_def array_index_examples)
  then show ?thesis
    by (simp add: topAuthors_def rankedAuthors_ranking)
qed


section \<open>Properties of the Detail-Level Formatter\<close>

lemma formatCommitByDetailLevel_template:
  "formatCommitByDetailLevel c i L = render c i (template L)"
  by (simp add: formatCommitByDetailLevel_def template_def render_def
        minimal_def basic_def standard_def detailed_def maximum_def
        template1_def template2_def template3_def template4_def template5_def)

lemma level_fields_table:
  "level_fields 1 = [Index, ShortSha, Title]"
  "level_fields 2 = [Index, Title, ShortSha, AuthorName, DayText]"
  "level_fields 3 = [Index, Title, ShortSha, Minutes, AuthorName, Body]"
  "level_fields 4 = [Index, Title, ShortSha, Seconds, AuthorName, Email, Repo, Body, Url]"
  "level_fields 5 = [Index, Title, FullSha, Seconds, AuthorName, Email, Repo, Body, Stats, Files, Url]"
  by (simp_all add: level_fields_def template_def
        template1_def template2_def template3_def template4_def template5_def)

lemma sublist_render_piece:
  "f \<in> set (piece_fields p) \<Longrightarrow> sublist (field_text c i f) (render_piece c i p)"
  by (cases p) auto

lemma sublist_concat: "x \<in> set xs \<Longrightarrow> sublist x (concat xs)"
proof (induction xs)
  case Nil
  then show ?case by simp
next
  case (Cons y xs)
  show ?case
  proof (cases "x = y")
    case True
    then show ?thesis by simp
  next
    case False
    with Cons have "sublist x (concat xs)" by simp
    then show ?thesis by (simp add: sublist_append)
  qed
qed

lemma sublist_trans: "sublist a b \<Longrightarrow> sublist b d \<Longrightarrow> sublist a d"
  by (rule sublist_order.order_trans)

lemma sublist_field:
  assumes "f \<in> set (level_fields L)"
  shows "sublist (field_text c i f) (formatCommitByDetailLevel c i L)"
proof -
  from assms obtain p where p: "p \<in> set (template L)" and f: "f \<in> set (piece_fields p)"
    by (auto simp: level_fields_def)
  from p have "sublist (render_piece c i p) (render c i (template L))"
    by (auto simp: render_def intro: sublist_concat)
  with sublist_render_piece [OF f, of c i] show ?thesis
    by (auto simp: formatCommitByDetailLevel_template intro: sublist_trans)
qed


lemma takeWhile_stop:
  "\<forall>x\<in>set xs. P x \<Longrightarrow> \<not> P y \<Longrightarrow> takeWhile P (xs @ y # ys) = xs"
  by (induction xs) simp_all

lemma length_show_nat_small: "n < 100 \<Longrightarrow> length (show_nat n) \<le> 2"
proof -
  assume n: "n < 100"
  show ?thesis
  proof (cases "n < 10")
    case True
    then show ?thesis by (subst show_nat.simps) simp
  next
    case False
    with n have "n div 10 < 10" by simp
    then have "show_nat (n div 10) = [digit_char (n div 10)]"
      by (subst show_nat.simps) simp
    with False show ?thesis by (subst show_nat.simps) simp
  qed
qed

lemma length_pad: "length (show_nat n) \<le> w \<Longrightarrow> length (pad w n) = w"
  by (simp add: pad_def)

lemma length_pad2: "n < 100 \<Longrightarrow> length (pad 2 n) = 2"
  by (rule length_pad) (rule length_show_nat_small)

lemma read_digits_zeros: "read_digits 0 (replicate k CHR ''0'' @ s) = read_digits 0 s"
  by (induction k) simp_all

lemma read_nat_pad: "read_nat (pad w n) = Some n"
  by (simp add: read_nat_def pad_def read_digits_zeros read_digits_show_nat show_nat_nonempty)

lemma not_digit_dash: "\<not> is_digit CHR ''-''"
  by (simp add: is_digit_def)

lemma pad_no_dash: "\<forall>ch\<in>set (pad w n). ch \<noteq> CHR ''-''"
  using pad_digits [of w n] not_digit_dash by auto

lemma day_of_stamp_minutes:
  assumes "valid_date d"
  shows "day_of_stamp (format_yyyy_MM_dd_HH_mm d) = format_MMM_dd_yyyy d"
proof -
  define y where "y = pad 4 (year d)"
  define m where "m = pad 2 (month d)"
  define dd where "dd = pad 2 (day d)"
  define rest where "rest = '' '' @ pad 2 (hours d) @ '':'' @ pad 2 (minutes d)"
  have ts: "format_yyyy_MM_dd_HH_mm d = y @ CHR ''-'' # (m @ CHR ''-'' # (dd @ rest))"
    by (simp add: format_yyyy_MM_dd_HH_mm_def format_yyyy_MM_dd_def y_def m_def dd_def rest_def)
  from assms have lm: "length m = 2" and ld: "length dd = 2"
    by (simp_all add: m_def dd_def valid_date_def length_pad2)
  have year: "takeWhile (\<lambda>ch. ch \<noteq> CHR ''-'') (y @ CHR ''-'' # (m @ CHR ''-'' # (dd @ rest))) = y"
    unfolding y_def by (rule takeWhile_stop [OF pad_no_dash]) simp
  have rm: "read_nat m = Some (month d)"
    by (simp add: m_def read_nat_pad)
  show ?thesis
    by (simp add: day_of_stamp_def ts year lm ld rm Let_def format_MMM_dd_yyyy_def
          y_def [symmetric] dd_def [symmetric])
qed

lemma minutes_prefix_seconds:
  "prefix (format_yyyy_MM_dd_HH_mm d) (format_yyyy_MM_dd_HH_mm_ss d)"
  by (simp add: format_yyyy_MM_dd_HH_mm_ss_def)

lemma sublist_short_sha: "sublist (short_sha c) (sha c)"
  by (simp add: short_sha_def)


lemma level_cases:
  assumes "1 \<le> L1" "L1 < L2" "L2 \<le> (5::int)"
  shows "(L1 = 1 \<and> (L2 = 2 \<or> L2 = 3 \<or> L2 = 4 \<or> L2 = 5))
         \<or> (L1 = 2 \<and> (L2 = 3 \<or> L2 = 4 \<or> L2 = 5))
         \<or> (L1 = 3 \<and> (L2 = 4 \<or> L2 = 5))
         \<or> (L1 = 4 \<and> L2 = 5)"
  using assms by arith

lemma field_kept_or_refined:
  assumes "1 \<le> L1" "L1 < L2" "L2 \<le> 5" and "f \<in> set (level_fields L1)" and "f \<noteq> DayText"
  shows "f \<in> set (level_fields L2)
         \<or> (f = ShortSha \<and> FullSha \<in> set (level_fields L2))
         \<or> (f = Minutes \<and> Seconds \<in> set (level_fields L2))"
  using level_cases [OF assms(1-3)] assms(4,5)
  by (elim disjE conjE) (auto simp: level_fields_table)

lemma field_text_in_higher_level:
  assumes "1 \<le> L1" "L1 < L2" "L2 \<le> 5" and "f \<in> set (level_fields L1)" and "f \<noteq> DayText"
  shows "sublist (field_text c i f) (formatCommitByDetailLevel c i L2)"
proof -
  from field_kept_or_refined [OF assms] consider
    (same) "f \<in> set (level_fields L2)"
    | (sha) "f = ShortSha" "FullSha \<in> set (level_fields L2)"
    | (time) "f = Minutes" "Seconds \<in> set (level_fields L2)"
    by blast
  then show ?thesis
  proof cases
    case same
    then show ?thesis by (rule sublist_field)
  next
    case sha
    have "sublist (field_text c i ShortSha) (field_text c i FullSha)"
      by (simp add: sublist_short_sha)
    moreover have "sublist (field_text c i FullSha) (formatCommitByDetailLevel c i L2)"
      using sha(2) by (rule sublist_field)
    ultimately show ?thesis
      unfolding sha(1) by (rule sublist_trans)
  next
    case time
    have "sublist (field_text c i Minutes) (field_text c i Seconds)"
      by (simp add: minutes_prefix_seconds)
    moreover have "sublist (field_text c i Seconds) (formatCommitByDetailLevel c i L2)"
      using time(2) by (rule sublist_field)
    ultimately show ?thesis
      unfolding time(1) by (rule sublist_trans)
  qed
qed

lemma day_in_higher_level:
  assumes "1 \<le> L1" "L1 < L2" "L2 \<le> 5" and "DayText \<in> set (level_fields L1)"
  shows "sublist (format_yyyy_MM_dd_HH_mm (commit_date c)) (formatCommitByDetailLevel c i L2)"
proof -
  from level_cases [OF assms(1-3)] assms(4)
  have "Minutes \<in> set (level_fields L2) \<or> Seconds \<in> set (level_fields L2)"
    by (elim disjE conjE) (auto simp: level_fields_table)
  then show ?thesis
  proof
    assume "Minutes \<in> set (level_fields L2)"
    then have "sublist (field_text c i Minutes) (formatCommitByDetailLevel c i L2)"
      by (rule sublist_field)
    then show ?thesis by simp
  next
    assume "Seconds \<in> set (level_fields L2)"
    then have "sublist (field_text c i Seconds) (formatCommitByDetailLevel c i L2)"
      by (rule sublist_field)
    moreover have "sublist (format_yyyy_MM_dd_HH_mm (commit_date c)) (field_text c i Seconds)"
      by (simp add: minutes_prefix_seconds)
    ultimately show ?thesis
      by (rule sublist_trans [rotated])
  qed
qed

lemma out_of_range_level:
  "L < 1 \<or> 5 < L \<Longrightarrow> formatCommitByDetailLevel c i L = formatCommitByDetailLevel c i 3"
  by (auto simp: formatCommitByDetailLevel_def)


lemmas block_defs =
  formatCommitByDetailLevel_def minimal_def basic_def standard_def detailed_def maximum_def
  sample_commit_def short_sha_def message_title_def message_body_def author_name_def
  author_email_def commit_date_def repository_text_def stats_text_def files_text_def
  trim_def is_space_def nl_def

lemma more_at_2:
  "formatCommitByDetailLevel (sample_commit ''a1b2c3d4e5'' ''ann'' ''fix'' None) i 1
     = formatCommitByDetailLevel (sample_commit ''a1b2c3d4e5'' ''bob'' ''fix'' None) i 1"
  "L = 2 \<or> L = 3 \<or> L = 4 \<or> L = 5 \<Longrightarrow>
   formatCommitByDetailLevel (sample_commit ''a1b2c3d4e5'' ''ann'' ''fix'' None) i L
     \<noteq> formatCommitByDetailLevel (sample_commit ''a1b2c3d4e5'' ''bob'' ''fix'' None) i L"
  by (auto simp: block_defs)

lemma more_at_3:
  "formatCommitByDetailLevel (sample_commit ''a1b2c3d4e5'' ''ann'' ''fix'' None) i 2
     = formatCommitByDetailLevel
         (sample_commit ''a1b2c3d4e5'' ''ann'' (''fix'' @ nl @ ''more'') None) i 2"
  "L = 3 \<or> L = 4 \<or> L = 5 \<Longrightarrow>
   formatCommitByDetailLevel (sample_commit ''a1b2c3d4e5'' ''ann'' ''fix'' None) i L
     \<noteq> formatCommitByDetailLevel
         (sample_commit ''a1b2c3d4e5'' ''ann'' (''fix'' @ nl @ ''more'') None) i L"
  by (auto simp: block_defs)

lemma more_at_4:
  "formatCommitByDetailLevel (sample_commit ''a1b2c3d4e5'' ''ann'' ''fix'' None) i 3
     = formatCommitByDetailLevel (sample_commit ''a1b2c3d4e5'' ''ann'' ''fix'' (Some ''api'')) i 3"
  "L = 4 \<or> L = 5 \<Longrightarrow>
   formatCommitByDetailLevel (sample_commit ''a1b2c3d4e5'' ''ann'' ''fix'' None) i L
     \<noteq> formatCommitByDetailLevel (sample_commit ''a1b2c3d4e5'' ''ann'' ''fix'' (Some ''api'')) i L"
  by (auto simp: block_defs)

lemma more_at_5:
  "formatCommitByDetailLevel (sample_commit ''a1b2c3d4e5'' ''ann'' ''fix'' None) i 4
     = formatCommitByDetailLevel
         ((sample_commit ''a1b2c3d4e5'' ''ann'' ''fix'' None)\<lparr>files := Some []\<rparr>) i 4"
  "formatCommitByDetailLevel (sample_commit ''a1b2c3d4e5'' ''ann'' ''fix'' None) i 5
     \<noteq> formatCommitByDetailLevel
         ((sample_commit ''a1b2c3d4e5'' ''ann'' ''fix'' None)\<lparr>files := Some []\<rparr>) i 5"
  by (auto simp: block_defs show_nat.simps digit_char_def)

lemma higher_level_tells_more:
  assumes "1 \<le> L1" "L1 < L2" "L2 \<le> 5"
  shows "\<exists>c1 c2. formatCommitByDetailLevel c1 i L1 = formatCommitByDetailLevel c2 i L1
               \<and> formatCommitByDetailLevel c1 i L2 \<noteq> formatCommitByDetailLevel c2 i L2"
proof -
  from level_cases [OF assms] consider
    (one) "L1 = 1" "L2 = 2 \<or> L2 = 3 \<or> L2 = 4 \<or> L2 = 5"
    | (two) "L1 = 2" "L2 = 3 \<or> L2 = 4 \<or> L2 = 5"
    | (three) "L1 = 3" "L2 = 4 \<or> L2 = 5"
    | (four) "L1 = 4" "L2 = 5"
    by blast
  then show ?thesis
  proof cases
    case one
    with more_at_2 show ?thesis by blast
  next
    case two
    with more_at_3 show ?thesis by blast
  next
    case three
    with more_at_4 show ?thesis by blast
  next
    case four
    with more_at_5 show ?thesis by blast
  qed
qed


text \<open>
  C2. For levels \<open>1 \<le> L1 < L2 \<le> 5\<close>: the block of level \<open>L2\<close> contains the text of every
  field of level \<open>L1\<close>, except that the day of level 2 (\<^verbatim>\<open>MMM dd, yyyy\<close>) is contained as
  the time stamp of the levels 3 to 5, from which the day is read. The block of \<open>L2\<close>
  tells more: two commits can have the same block at \<open>L1\<close> and different blocks at
  \<open>L2\<close>. A level outside 1 to 5 gives the block of level 3. The fields of a level are
  those of its template, and the formatter renders that template.
\<close>

theorem detail_levels_monotone:
  assumes "1 \<le> L1" and "L1 < L2" and "L2 \<le> 5"
  shows "(\<forall>f\<in>set (level_fields L1). f \<noteq> DayText \<longrightarrow>
            sublist (field_text c i f) (formatCommitByDetailLevel c i L2))
         \<and> (DayText \<in> set (level_fields L1) \<longrightarrow>
              sublist (format_yyyy_MM_dd_HH_mm (commit_date c)) (formatCommitByDetailLevel c i L2)
              \<and> (valid_date (commit_date c) \<longrightarrow>
                   day_of_stamp (format_yyyy_MM_dd_HH_mm (commit_date c)) = field_text c i DayText))
         \<and> (\<exists>c1 c2. formatCommitByDetailLevel c1 i L1 = formatCommitByDetailLevel c2 i L1
                    \<and> formatCommitByDetailLevel c1 i L2 \<noteq> formatCommitByDetailLevel c2 i L2)
         \<and> (\<forall>L. L < 1 \<or> 5 < L \<longrightarrow>
                formatCommitByDetailLevel c i L = formatCommitByDetailLevel c i 3)
         \<and> (\<forall>L. formatCommitByDetailLevel c i L = render c i (template L))"
proof (intro conjI ballI allI impI)
  fix f
  assume "f \<in> set (level_fields L1)" and "f \<noteq> DayText"
  with assms show "sublist (field_text c i f) (formatCommitByDetailLevel c i L2)"
    by (rule field_text_in_higher_level)
next
  assume "DayText \<in> set (level_fields L1)"
  with assms
  show "sublist (format_yyyy_MM_dd_HH_mm (commit_date c)) (formatCommitByDetailLevel c i L2)"
    by (rule day_in_higher_level)
next
  assume "valid_date (commit_date c)"
  then show "day_of_stamp (format_yyyy_MM_dd_HH_mm (commit_date c)) = field_text c i DayText"
    by (simp add: day_of_stamp_minutes)
next
  from assms
  show "\<exists>c1 c2. formatCommitByDetailLevel c1 i L1 = formatCommitByDetailLevel c2 i L1
               \<and> formatCommitByDetailLevel c1 i L2 \<noteq> formatCommitByDetailLevel c2 i L2"
    by (rule higher_level_tells_more)
next
  fix L :: int
  assume "L < 1 \<or> 5 < L"
  then show "formatCommitByDetailLevel c i L = formatCommitByDetailLevel c i 3"
    by (rule out_of_range_level)
next
  fix L
  show "formatCommitByDetailLevel c i L = render c i (template L)"
    by (rule formatCommitByDetailLevel_template)
qed

lemma sample_stamp:
  "format_yyyy_MM_dd_HH_mm sample_date = ''2024-03-05 14:50''"
  "format_MMM_dd_yyyy sample_date = ''Mar 05, 2024''"
  by (simp_all add: format_yyyy_MM_dd_HH_mm_def format_yyyy_MM_dd_def format_MMM_dd_yyyy_def
        sample_date_def pad_def show_nat.simps digit_char_def month_abbr_def month_names_def)

theorem detail_levels_monotone_witness:
  "sublist ''ann''
     (formatCommitByDetailLevel
        (sample_commit ''a1b2c3d4e5'' ''ann'' (''fix'' @ nl @ ''more'') (Some ''api'')) 1 4)
   \<and> sublist ''a1b2c3d4''
     (formatCommitByDetailLevel
        (sample_commit ''a1b2c3d4e5'' ''ann'' (''fix'' @ nl @ ''more'') (Some ''api'')) 1 4)
   \<and> sublist ''2024-03-05 14:50''
     (formatCommitByDetailLevel
        (sample_commit ''a1b2c3d4e5'' ''ann'' (''fix'' @ nl @ ''more'') (Some ''api'')) 1 4)
   \<and> day_of_stamp ''2024-03-05 14:50'' = ''Mar 05, 2024''
   \<and> formatCommitByDetailLevel
        (sample_commit ''a1b2c3d4e5'' ''ann'' (''fix'' @ nl @ ''more'') (Some ''api'')) 1 9
     = formatCommitByDetailLevel
        (sample_commit ''a1b2c3d4e5'' ''ann'' (''fix'' @ nl @ ''more'') (Some ''api'')) 1 3"
proof -
  let ?c = "sample_commit ''a1b2c3d4e5'' ''ann'' (''fix'' @ nl @ ''more'') (Some ''api'')"
  have levels: "(1::int) \<le> 2" "(2::int) < 4" "(4::int) \<le> 5"
    by simp_all
  have fields: "AuthorName \<in> set (level_fields 2)" "ShortSha \<in> set (level_fields 2)"
    "DayText \<in> set (level_fields 2)"
    by (simp_all add: level_fields_table)
  have valid: "valid_date (commit_date ?c)"
    by (simp add: valid_date_def commit_date_def sample_commit_def sample_date_def)
  have texts: "field_text ?c 1 AuthorName = ''ann''" "field_text ?c 1 ShortSha = ''a1b2c3d4''"
    "field_text ?c 1 DayText = ''Mar 05, 2024''"
    "format_yyyy_MM_dd_HH_mm (commit_date ?c) = ''2024-03-05 14:50''"
    by (simp_all add: author_name_def short_sha_def commit_date_def sample_commit_def sample_stamp)
  note main = detail_levels_monotone [OF levels, of ?c 1]
  from main have kept: "\<forall>f\<in>set (level_fields 2). f \<noteq> DayText \<longrightarrow>
        sublist (field_text ?c 1 f) (formatCommitByDetailLevel ?c 1 4)"
    by (rule conjunct1)
  from main have day: "DayText \<in> set (level_fields 2) \<longrightarrow>
        sublist (format_yyyy_MM_dd_HH_mm (commit_date ?c)) (formatCommitByDetailLevel ?c 1 4)
        \<and> (valid_date (commit_date ?c) \<longrightarrow>
             day_of_stamp (format_yyyy_MM_dd_HH_mm (commit_date ?c)) = field_text ?c 1 DayText)"
    by blast
  from main have fallback: "\<forall>L. L < 1 \<or> 5 < L \<longrightarrow>
        formatCommitByDetailLevel ?c 1 L = formatCommitByDetailLevel ?c 1 3"
    by blast
  from kept fields have "sublist (field_text ?c 1 AuthorName) (formatCommitByDetailLevel ?c 1 4)"
    by blast
  moreover from kept fields
  have "sublist (field_text ?c 1 ShortSha) (formatCommitByDetailLevel ?c 1 4)"
    by blast
  moreover from day fields valid
  have "sublist (format_yyyy_MM_dd_HH_mm (commit_date ?c)) (formatCommitByDetailLevel ?c 1 4)"
    and "day_of_stamp (format_yyyy_MM_dd_HH_mm (commit_date ?c)) = field_text ?c 1 DayText"
    by blast+
  moreover from fallback
  have "formatCommitByDetailLevel ?c 1 9 = formatCommitByDetailLevel ?c 1 3"
    by simp
  ultimately have "sublist (field_text ?c 1 AuthorName) (formatCommitByDetailLevel ?c 1 4)
      \<and> sublist (field_text ?c 1 ShortSha) (formatCommitByDetailLevel ?c 1 4)
      \<and> sublist (format_yyyy_MM_dd_HH_mm (commit_date ?c)) (formatCommitByDetailLevel ?c 1 4)
      \<and> day_of_stamp (format_yyyy_MM_dd_HH_mm (commit_date ?c)) = field_text ?c 1 DayText
      \<and> formatCommitByDetailLevel ?c 1 9 = formatCommitByDetailLevel ?c 1 3"
    by blast
  then show ?thesis
    by (simp only: texts)
qed

end
